theory Spec2Isabelle
  imports Main "HOL-Library.AList"
begin

section \<open>Strings, exceptions and Unicode digit classes\<close>

text \<open>
  A Python \<^verbatim>\<open>str\<close> is a sequence of Unicode code points: \<^verbatim>\<open>len\<close> counts code points and
  \<^verbatim>\<open>==\<close> compares them one by one. A string is therefore a list of code points, and
  \<open>lit\<close> turns an ASCII literal of the source into such a list.
\<close>

type_synonym pystr = "nat list"

definition lit :: "string \<Rightarrow> pystr" where
  "lit s = map of_char s"

text \<open>\<^verbatim>\<open>str(n)\<close> of a number: its decimal digits, with a minus sign for a negative one.\<close>

function str_nat :: "nat \<Rightarrow> pystr" where
  "str_nat n = (if n < 10 then [0x30 + n] else str_nat (n div 10) @ [0x30 + n mod 10])"
  by pat_completeness auto
termination
  by (relation "measure id") auto

declare str_nat.simps [simp del]

definition str_int :: "int \<Rightarrow> pystr" where
  "str_int i = (if i < 0 then 0x2D # str_nat (nat (- i)) else str_nat (nat i))"

text \<open>\<^verbatim>\<open>sep.join(xs)\<close>.\<close>

fun join :: "pystr \<Rightarrow> pystr list \<Rightarrow> pystr" where
  "join sep [] = []"
| "join sep [x] = x"
| "join sep (x # y # ys) = x @ sep @ join sep (y # ys)"

text \<open>
  An exception is its class together with \<^verbatim>\<open>str(e)\<close>, the only two things the handlers of
  \<^verbatim>\<open>input_error\<close> look at.
\<close>

datatype error =
    ValueError pystr
  | IndexError pystr
  | KeyError pystr
  | OverflowError pystr

text \<open>
  \<^verbatim>\<open>str.isdecimal\<close> (and \<^verbatim>\<open>\d\<close> of the \<^verbatim>\<open>re\<close> module on a \<^verbatim>\<open>str\<close> pattern) holds for the code
  points of general category Nd; \<^verbatim>\<open>str.isdigit\<close> holds for those and for the code points
  of numeric type Digit. The tables are the ones of Unicode 14.0.0, the version of
  CPython 3.11: inclusive ranges of code points. Every Nd range starts at a digit zero
  and runs through whole decades, which is how \<open>decimal_value\<close> reads the value of a
  digit.
\<close>

definition decimal_ranges :: "(nat \<times> nat) list" where
  "decimal_ranges =
    [(0x30, 0x39), (0x660, 0x669), (0x6F0, 0x6F9), (0x7C0, 0x7C9), (0x966, 0x96F),
     (0x9E6, 0x9EF), (0xA66, 0xA6F), (0xAE6, 0xAEF), (0xB66, 0xB6F), (0xBE6, 0xBEF),
     (0xC66, 0xC6F), (0xCE6, 0xCEF), (0xD66, 0xD6F), (0xDE6, 0xDEF), (0xE50, 0xE59),
     (0xED0, 0xED9), (0xF20, 0xF29), (0x1040, 0x1049), (0x1090, 0x1099), (0x17E0, 0x17E9),
     (0x1810, 0x1819), (0x1946, 0x194F), (0x19D0, 0x19D9), (0x1A80, 0x1A89),
     (0x1A90, 0x1A99), (0x1B50, 0x1B59), (0x1BB0, 0x1BB9), (0x1C40, 0x1C49),
     (0x1C50, 0x1C59), (0xA620, 0xA629), (0xA8D0, 0xA8D9), (0xA900, 0xA909),
     (0xA9D0, 0xA9D9), (0xA9F0, 0xA9F9), (0xAA50, 0xAA59), (0xABF0, 0xABF9),
     (0xFF10, 0xFF19), (0x104A0, 0x104A9), (0x10D30, 0x10D39), (0x11066, 0x1106F),
     (0x110F0, 0x110F9), (0x11136, 0x1113F), (0x111D0, 0x111D9), (0x112F0, 0x112F9),
     (0x11450, 0x11459), (0x114D0, 0x114D9), (0x11650, 0x11659), (0x116C0, 0x116C9),
     (0x11730, 0x11739), (0x118E0, 0x118E9), (0x11950, 0x11959), (0x11C50, 0x11C59),
     (0x11D50, 0x11D59), (0x11DA0, 0x11DA9), (0x16A60, 0x16A69), (0x16AC0, 0x16AC9),
     (0x16B50, 0x16B59), (0x1D7CE, 0x1D7FF), (0x1E140, 0x1E149), (0x1E2F0, 0x1E2F9),
     (0x1E950, 0x1E959), (0x1FBF0, 0x1FBF9)]"

definition digit_only_ranges :: "(nat \<times> nat) list" where
  "digit_only_ranges =
    [(0xB2, 0xB3), (0xB9, 0xB9), (0x1369, 0x1371), (0x19DA, 0x19DA), (0x2070, 0x2070),
     (0x2074, 0x2079), (0x2080, 0x2089), (0x2460, 0x2468), (0x2474, 0x247C),
     (0x2488, 0x2490), (0x24EA, 0x24EA), (0x24F5, 0x24FD), (0x24FF, 0x24FF),
     (0x2776, 0x277E), (0x2780, 0x2788), (0x278A, 0x2792), (0x10A40, 0x10A43),
     (0x10E60, 0x10E68), (0x11052, 0x1105A), (0x1F100, 0x1F10A)]"

fun in_ranges :: "nat \<Rightarrow> (nat \<times> nat) list \<Rightarrow> bool" where
  "in_ranges c [] = False"
| "in_ranges c ((lo, hi) # rs) = (if lo \<le> c \<and> c \<le> hi then True else in_ranges c rs)"

definition isdecimal_char :: "nat \<Rightarrow> bool" where
  "isdecimal_char c = in_ranges c decimal_ranges"

definition isdigit_char :: "nat \<Rightarrow> bool" where
  "isdigit_char c = (isdecimal_char c \<or> in_ranges c digit_only_ranges)"

fun decimal_in :: "nat \<Rightarrow> (nat \<times> nat) list \<Rightarrow> int" where
  "decimal_in c [] = 0"
| "decimal_in c ((lo, hi) # rs) =
     (if lo \<le> c \<and> c \<le> hi then int ((c - lo) mod 10) else decimal_in c rs)"

definition decimal_value :: "nat \<Rightarrow> int" where
  "decimal_value c = decimal_in c decimal_ranges"

text \<open>\<^verbatim>\<open>str.isdigit()\<close>: every character is a digit and there is at least one character.\<close>

definition isdigit :: "pystr \<Rightarrow> bool" where
  "isdigit s = (s \<noteq> [] \<and> list_all isdigit_char s)"

text \<open>The spec's narrower class: the ten ASCII decimal digits \<^verbatim>\<open>0\<close> .. \<^verbatim>\<open>9\<close>.\<close>

definition ascii_digit :: "nat \<Rightarrow> bool" where
  "ascii_digit c = (0x30 \<le> c \<and> c \<le> 0x39)"

definition spec_ascii_digits :: "pystr \<Rightarrow> bool" where
  "spec_ascii_digits s = list_all ascii_digit s"

section \<open>The library's dates\<close>

text \<open>
  \<^verbatim>\<open>datetime.date\<close>, as far as the address book uses it. The arithmetic is the one of
  CPython's \<^verbatim>\<open>datetime\<close> module (\<^verbatim>\<open>_is_leap\<close>, \<^verbatim>\<open>_days_before_year\<close>, \<^verbatim>\<open>_days_in_month\<close>,
  \<^verbatim>\<open>_days_before_month\<close>, \<^verbatim>\<open>_ymd2ord\<close>, \<^verbatim>\<open>_ord2ymd\<close>), on Python's unbounded integers; the
  two tables are indexed by the month, with a placeholder at index 0.
\<close>

record date =
  year :: int
  month :: int
  day :: int

definition DAYS_IN_MONTH :: "int list" where
  "DAYS_IN_MONTH = [-1, 31, 28, 31, 30, 31, 30, 31, 31, 30, 31, 30, 31]"

definition DAYS_BEFORE_MONTH :: "int list" where
  "DAYS_BEFORE_MONTH = [-1, 0, 31, 59, 90, 120, 151, 181, 212, 243, 273, 304, 334]"

definition is_leap :: "int \<Rightarrow> bool" where
  "is_leap y = (y mod 4 = 0 \<and> (y mod 100 \<noteq> 0 \<or> y mod 400 = 0))"

definition days_before_year :: "int \<Rightarrow> int" where
  "days_before_year yr = (let y = yr - 1 in y * 365 + y div 4 - y div 100 + y div 400)"

definition days_in_month :: "int \<Rightarrow> int \<Rightarrow> int" where
  "days_in_month y m = (if m = 2 \<and> is_leap y then 29 else DAYS_IN_MONTH ! nat m)"

definition days_before_month :: "int \<Rightarrow> int \<Rightarrow> int" where
  "days_before_month y m = DAYS_BEFORE_MONTH ! nat m + (if m > 2 \<and> is_leap y then 1 else 0)"

definition ymd2ord :: "int \<Rightarrow> int \<Rightarrow> int \<Rightarrow> int" where
  "ymd2ord y m d = days_before_year y + days_before_month y m + d"

definition MAXORDINAL :: int where
  "MAXORDINAL = 3652059"

text \<open>
  The second half of \<^verbatim>\<open>_ord2ymd\<close>: from the day \<open>n\<close> of the year, counted from 0, to the
  month and the day of the month. The estimate \<^verbatim>\<open>(n + 50) >> 5\<close> is exact or one too large.
\<close>

definition month_day :: "int \<Rightarrow> bool \<Rightarrow> int \<times> int" where
  "month_day n leapyear =
     (let mo = (n + 50) div 32;
          preceding = DAYS_BEFORE_MONTH ! nat mo + (if mo > 2 \<and> leapyear then 1 else 0)
      in if preceding > n
         then let mo = mo - 1;
                  preceding = preceding
                    - (DAYS_IN_MONTH ! nat mo + (if mo = 2 \<and> leapyear then 1 else 0))
              in (mo, n - preceding + 1)
         else (mo, n - preceding + 1))"

definition ord2ymd :: "int \<Rightarrow> date" where
  "ord2ymd n =
     (let n = n - 1;
          n400 = n div 146097; n = n mod 146097;
          yr = n400 * 400 + 1;
          n100 = n div 36524; n = n mod 36524;
          n4 = n div 1461; n = n mod 1461;
          n1 = n div 365; n = n mod 365;
          yr = yr + (n100 * 100 + n4 * 4 + n1)
      in if n1 = 4 \<or> n100 = 4 then \<lparr>year = yr - 1, month = 12, day = 31\<rparr>
         else
           let leapyear = (n1 = 3 \<and> (n4 \<noteq> 24 \<or> n100 = 3))
           in case month_day n leapyear of
                (mo, d) \<Rightarrow> \<lparr>year = yr, month = mo, day = d\<rparr>)"

text \<open>
  The constructor \<^verbatim>\<open>date(year, month, day)\<close> checks its fields in this order and raises
  ValueError; \<^verbatim>\<open>replace(year=y)\<close> builds a new date from the changed field and the two
  others, through the same checks.
\<close>

definition date_new :: "int \<Rightarrow> int \<Rightarrow> int \<Rightarrow> error + date" where
  "date_new y m d =
     (if y < 1 \<or> 9999 < y
      then Inl (ValueError (lit ''year '' @ str_int y @ lit '' is out of range''))
      else if m < 1 \<or> 12 < m then Inl (ValueError (lit ''month must be in 1..12''))
      else if d < 1 \<or> days_in_month y m < d
      then Inl (ValueError (lit ''day is out of range for month''))
      else Inr \<lparr>year = y, month = m, day = d\<rparr>)"

definition date_replace_year :: "date \<Rightarrow> int \<Rightarrow> error + date" where
  "date_replace_year d y = date_new y (month d) (day d)"

text \<open>\<^verbatim>\<open>a < b\<close> compares \<^verbatim>\<open>(year, month, day)\<close> lexicographically.\<close>

definition date_lt :: "date \<Rightarrow> date \<Rightarrow> bool" where
  "date_lt a b = (year a < year b \<or> (year a = year b \<and>
       (month a < month b \<or> (month a = month b \<and> day a < day b))))"

definition toordinal :: "date \<Rightarrow> int" where
  "toordinal d = ymd2ord (year d) (month d) (day d)"

text \<open>\<^verbatim>\<open>weekday()\<close>: Monday is 0 and Sunday is 6.\<close>

definition weekday :: "date \<Rightarrow> int" where
  "weekday d = (toordinal d + 6) mod 7"

text \<open>\<^verbatim>\<open>d + timedelta(days=k)\<close>.\<close>

definition date_add_days :: "date \<Rightarrow> int \<Rightarrow> error + date" where
  "date_add_days d k =
     (let ord = toordinal d + k
      in if 0 < ord \<and> ord \<le> MAXORDINAL then Inr (ord2ymd ord)
         else Inl (OverflowError (lit ''date value out of range'')))"

text \<open>
  \<^verbatim>\<open>strftime("%d.%m.%Y")\<close>: day and month on two digits; the year is printed by the C
  library, which on glibc writes it without padding (\<^verbatim>\<open>02.01.999\<close>).
\<close>

definition pad2 :: "int \<Rightarrow> pystr" where
  "pad2 i = (if i < 10 then 0x30 # str_int i else str_int i)"

definition strftime_dmY :: "date \<Rightarrow> pystr" where
  "strftime_dmY d = pad2 (day d) @ lit ''.'' @ pad2 (month d) @ lit ''.'' @ str_int (year d)"

section \<open>The library's \<^verbatim>\<open>strptime\<close> with the format \<^verbatim>\<open>%d.%m.%Y\<close>\<close>

text \<open>
  \<^verbatim>\<open>_strptime\<close> compiles the format to the regular expression
  \<^verbatim>\<open>(?P<d>3[0-1]|[1-2]\d|0[1-9]|[1-9]| [1-9])\.(?P<m>1[0-2]|0[1-9]|[1-9])\.(?P<Y>\d\d\d\d)\<close>
  and matches it at the start of the data. A backtracking matcher tries the alternatives
  of a group from left to right, so a group is modelled by the list of its matches in
  that order, each with the text of the group and the input left after it; the match
  that \<^verbatim>\<open>re\<close> reports is the first one of the whole expression.
\<close>

definition in_1_9 :: "nat \<Rightarrow> bool" where
  "in_1_9 c = (0x31 \<le> c \<and> c \<le> 0x39)"

definition re_d :: "pystr \<Rightarrow> (pystr \<times> pystr) list" where
  "re_d s =
     (case s of
        a # b # r \<Rightarrow>
          (if a = 0x33 \<and> (b = 0x30 \<or> b = 0x31) then [([a, b], r)] else [])
          @ (if (a = 0x31 \<or> a = 0x32) \<and> isdecimal_char b then [([a, b], r)] else [])
          @ (if a = 0x30 \<and> in_1_9 b then [([a, b], r)] else [])
      | _ \<Rightarrow> [])
     @ (case s of a # r \<Rightarrow> (if in_1_9 a then [([a], r)] else []) | [] \<Rightarrow> [])
     @ (case s of
          a # b # r \<Rightarrow> (if a = 0x20 \<and> in_1_9 b then [([a, b], r)] else [])
        | _ \<Rightarrow> [])"

definition re_m :: "pystr \<Rightarrow> (pystr \<times> pystr) list" where
  "re_m s =
     (case s of
        a # b # r \<Rightarrow>
          (if a = 0x31 \<and> (b = 0x30 \<or> b = 0x31 \<or> b = 0x32) then [([a, b], r)] else [])
          @ (if a = 0x30 \<and> in_1_9 b then [([a, b], r)] else [])
      | _ \<Rightarrow> [])
     @ (case s of a # r \<Rightarrow> (if in_1_9 a then [([a], r)] else []) | [] \<Rightarrow> [])"

definition re_Y :: "pystr \<Rightarrow> (pystr \<times> pystr) list" where
  "re_Y s =
     (case s of
        a # b # c # d # r \<Rightarrow>
          (if isdecimal_char a \<and> isdecimal_char b \<and> isdecimal_char c \<and> isdecimal_char d
           then [([a, b, c, d], r)] else [])
      | _ \<Rightarrow> [])"

definition re_dot :: "pystr \<Rightarrow> pystr list" where
  "re_dot s = (case s of a # r \<Rightarrow> (if a = 0x2E then [r] else []) | [] \<Rightarrow> [])"

definition format_regex_match :: "pystr \<Rightarrow> (pystr \<times> pystr \<times> pystr \<times> pystr) list" where
  "format_regex_match s =
     concat (map (\<lambda>(d, r1).
       concat (map (\<lambda>r2.
         concat (map (\<lambda>(m, r3).
           concat (map (\<lambda>r4.
             map (\<lambda>(y, rest). (d, m, y, rest)) (re_Y r4))
           (re_dot r3)))
         (re_m r2)))
       (re_dot r1)))
     (re_d s))"

text \<open>
  \<^verbatim>\<open>int(found_dict[...])\<close> on a group of this expression: \<^verbatim>\<open>int\<close> skips the leading space
  that the last alternative of the day lets in, and reads decimal digits of any script.
\<close>

definition py_int :: "pystr \<Rightarrow> int" where
  "py_int s = foldl (\<lambda>acc c. 10 * acc + decimal_value c) 0 (dropWhile (\<lambda>c. c = 0x20) s)"

text \<open>
  What \<^verbatim>\<open>strptime\<close> raises is always a ValueError. When the data does not match, its
  message quotes \<^verbatim>\<open>repr(data_string)\<close>; that error is kept as \<open>Mismatch\<close> with the data,
  and the text of its message is not rendered.
\<close>

datatype strptime_error = Mismatch pystr | Raised error

definition strptime_dmY :: "pystr \<Rightarrow> strptime_error + date" where
  "strptime_dmY data_string =
     (case format_regex_match data_string of
        [] \<Rightarrow> Inl (Mismatch data_string)
      | (d, m, y, rest) # _ \<Rightarrow>
          if rest \<noteq> [] then Inl (Raised (ValueError (lit ''unconverted data remains: '' @ rest)))
          else (case date_new (py_int y) (py_int m) (py_int d) of
                  Inl e \<Rightarrow> Inl (Raised e)
                | Inr dt \<Rightarrow> Inr dt))"

section \<open>Fields\<close>

text \<open>
  \<^verbatim>\<open>Field\<close> holds one attribute, \<^verbatim>\<open>value\<close>; \<^verbatim>\<open>Name\<close>, \<^verbatim>\<open>Phone\<close> and \<^verbatim>\<open>Birthday\<close> add nothing to
  it but the check their constructors make. \<^verbatim>\<open>__str__\<close> is \<^verbatim>\<open>str(self.value)\<close>.
\<close>

datatype field = Field (field_value: pystr)

definition Field_str :: "field \<Rightarrow> pystr" where
  "Field_str f = field_value f"

definition Name :: "pystr \<Rightarrow> field" where
  "Name v = Field v"

definition Phone_init :: "pystr \<Rightarrow> error + field" where
  "Phone_init v =
     (if \<not> isdigit v \<or> length v \<noteq> 10
      then Inl (ValueError (lit ''Phone number must be 10 digits.''))
      else Inr (Field v))"

text \<open>\<^verbatim>\<open>Birthday\<close> keeps the string it was given; any ValueError of the parse is replaced.\<close>

definition Birthday_init :: "pystr \<Rightarrow> error + field" where
  "Birthday_init v =
     (case strptime_dmY v of
        Inr _ \<Rightarrow> Inr (Field v)
      | Inl _ \<Rightarrow> Inl (ValueError (lit ''Invalid date format. Use DD.MM.YYYY'')))"

section \<open>Record\<close>

record Record =
  name :: field
  phones :: "field list"
  email :: pystr
  birthday :: "field option"

text \<open>\<^verbatim>\<open>add_phone\<close>: \<^verbatim>\<open>self.phones.append(Phone(phone))\<close>.\<close>

definition Record_add_phone :: "Record \<Rightarrow> pystr \<Rightarrow> error + Record" where
  "Record_add_phone r phone =
     (case Phone_init phone of
        Inl e \<Rightarrow> Inl e
      | Inr p \<Rightarrow> Inr (r\<lparr>phones := phones r @ [p]\<rparr>))"

text \<open>
  \<^verbatim>\<open>Record(name, phone=None, email="")\<close>; the optional phone is \<open>None\<close> when it is left out,
  and \<^verbatim>\<open>if phone:\<close> skips an empty string as well.
\<close>

definition Record_init :: "pystr \<Rightarrow> pystr option \<Rightarrow> pystr \<Rightarrow> error + Record" where
  "Record_init nm phone em =
     (let r0 = \<lparr>name = Name nm, phones = [], email = em, birthday = None\<rparr>
      in case phone of
           None \<Rightarrow> Inr r0
         | Some p \<Rightarrow> (if p = [] then Inr r0 else Record_add_phone r0 p))"

definition Record_remove_phone :: "Record \<Rightarrow> pystr \<Rightarrow> Record" where
  "Record_remove_phone r phone = r\<lparr>phones := filter (\<lambda>p. field_value p \<noteq> phone) (phones r)\<rparr>"

text \<open>
  The loop of \<^verbatim>\<open>edit_phone\<close>: at the first phone whose value equals \<^verbatim>\<open>old_phone\<close> it assigns
  \<^verbatim>\<open>phone.value = new_phone\<close>, sets \<^verbatim>\<open>found\<close> and breaks. The result is the list after the
  loop and the flag.
\<close>

fun edit_phone_loop :: "field list \<Rightarrow> pystr \<Rightarrow> pystr \<Rightarrow> field list \<times> bool" where
  "edit_phone_loop [] old_phone new_phone = ([], False)"
| "edit_phone_loop (p # ps) old_phone new_phone =
     (if field_value p = old_phone then (Field new_phone # ps, True)
      else (case edit_phone_loop ps old_phone new_phone of
              (ps', found) \<Rightarrow> (p # ps', found)))"

definition Record_edit_phone :: "Record \<Rightarrow> pystr \<Rightarrow> pystr \<Rightarrow> error + Record" where
  "Record_edit_phone r old_phone new_phone =
     (case edit_phone_loop (phones r) old_phone new_phone of
        (ps, found) \<Rightarrow>
          if \<not> found then Inl (ValueError (lit ''Phone number not found.''))
          else Inr (r\<lparr>phones := ps\<rparr>))"

fun find_phone_loop :: "field list \<Rightarrow> pystr \<Rightarrow> field option" where
  "find_phone_loop [] phone = None"
| "find_phone_loop (p # ps) phone =
     (if field_value p = phone then Some p else find_phone_loop ps phone)"

definition Record_find_phone :: "Record \<Rightarrow> pystr \<Rightarrow> field option" where
  "Record_find_phone r phone = find_phone_loop (phones r) phone"

definition Record_add_birthday :: "Record \<Rightarrow> pystr \<Rightarrow> error + Record" where
  "Record_add_birthday r b =
     (case Birthday_init b of
        Inl e \<Rightarrow> Inl e
      | Inr f \<Rightarrow> Inr (r\<lparr>birthday := Some f\<rparr>))"

section \<open>AddressBook\<close>

text \<open>
  \<^verbatim>\<open>self.data\<close> is a \<^verbatim>\<open>dict\<close> from names to records: an association list in insertion
  order. \<open>AList.update\<close> overwrites the value of a key that is present, in place, and
  appends a new key at the end, as \<^verbatim>\<open>d[k] = v\<close> does; \<open>map_of\<close> is \<^verbatim>\<open>d.get(k)\<close>.
\<close>

type_synonym AddressBook = "(pystr \<times> Record) list"

definition AddressBook_add_record :: "Record \<Rightarrow> AddressBook \<Rightarrow> AddressBook" where
  "AddressBook_add_record r book = AList.update (field_value (name r)) r book"

definition AddressBook_find :: "pystr \<Rightarrow> AddressBook \<Rightarrow> Record option" where
  "AddressBook_find nm book = map_of book nm"

definition AddressBook_delete :: "pystr \<Rightarrow> AddressBook \<Rightarrow> AddressBook" where
  "AddressBook_delete nm book =
     (if nm \<in> set (map fst book) then AList.delete nm book else book)"

section \<open>The upcoming birthdays\<close>

text \<open>
  One entry of the result, the dictionary with the keys \<^verbatim>\<open>name\<close> and \<^verbatim>\<open>birthday\<close>.
\<close>

record entry =
  entry_name :: pystr
  entry_birthday :: pystr

text \<open>
  The body of the loop of \<^verbatim>\<open>get_upcoming_birthdays\<close> for one record: an exception that
  leaves the loop, or the entry that is appended, if any. \<open>today\<close> is the value of
  \<^verbatim>\<open>datetime.today().date()\<close>. A \<^verbatim>\<open>Birthday\<close> object is always true, so \<^verbatim>\<open>if record.birthday\<close>
  tests for \<open>None\<close>.
\<close>

definition upcoming_entry :: "date \<Rightarrow> Record \<Rightarrow> strptime_error + entry option" where
  "upcoming_entry today r =
     (case birthday r of
        None \<Rightarrow> Inr None
      | Some b \<Rightarrow>
         (case strptime_dmY (field_value b) of
            Inl e \<Rightarrow> Inl e
          | Inr birthday_date \<Rightarrow>
             (case date_replace_year birthday_date (year today) of
                Inl e \<Rightarrow> Inl (Raised e)
              | Inr birthday_this_year \<Rightarrow>
                 (case (if date_lt birthday_this_year today
                        then date_replace_year birthday_this_year (year today + 1)
                        else Inr birthday_this_year) of
                    Inl e \<Rightarrow> Inl (Raised e)
                  | Inr birthday_this_year \<Rightarrow>
                     (let days_until_birthday = toordinal birthday_this_year - toordinal today
                      in if 0 \<le> days_until_birthday \<and> days_until_birthday \<le> 7
                         then (case (if weekday birthday_this_year \<ge> 5
                                     then date_add_days birthday_this_year
                                            (7 - weekday birthday_this_year)
                                     else Inr birthday_this_year) of
                                 Inl e \<Rightarrow> Inl (Raised e)
                               | Inr birthday_this_year \<Rightarrow>
                                   Inr (Some \<lparr>entry_name = field_value (name r),
                                     entry_birthday = strftime_dmY birthday_this_year\<rparr>))
                         else Inr None)))))"

fun upcoming_loop :: "date \<Rightarrow> Record list \<Rightarrow> entry list \<Rightarrow> strptime_error + entry list" where
  "upcoming_loop today [] upcoming_birthdays = Inr upcoming_birthdays"
| "upcoming_loop today (r # rs) upcoming_birthdays =
     (case upcoming_entry today r of
        Inl e \<Rightarrow> Inl e
      | Inr None \<Rightarrow> upcoming_loop today rs upcoming_birthdays
      | Inr (Some e) \<Rightarrow> upcoming_loop today rs (upcoming_birthdays @ [e]))"

definition get_upcoming_birthdays :: "date \<Rightarrow> AddressBook \<Rightarrow> strptime_error + entry list" where
  "get_upcoming_birthdays today book = upcoming_loop today (map snd book) []"

section \<open>Command handlers\<close>

text \<open>
  A handler takes the arguments and the book, and returns what it returns or raises,
  with the book as it has left it. The decorator \<^verbatim>\<open>input_error\<close> turns an exception into
  a message: its \<^verbatim>\<open>except\<close> clauses are tried in order, and OverflowError is the one class
  here that only the last clause catches.
\<close>

definition input_error ::
  "('a \<Rightarrow> AddressBook \<Rightarrow> (error + pystr) \<times> AddressBook)
   \<Rightarrow> 'a \<Rightarrow> AddressBook \<Rightarrow> pystr \<times> AddressBook" where
  "input_error func args book =
     (case func args book of
        (Inr res, book') \<Rightarrow> (res, book')
      | (Inl (ValueError ve), book') \<Rightarrow> (ve, book')
      | (Inl (IndexError _), book') \<Rightarrow> (lit ''Please provide all necessary arguments.'', book')
      | (Inl (KeyError _), book') \<Rightarrow> (lit ''Contact not found.'', book')
      | (Inl (OverflowError e), book') \<Rightarrow> (lit ''An unexpected error occurred: '' @ e, book'))"

text \<open>
  \<^verbatim>\<open>name, phone, *rest = args\<close> raises ValueError, not IndexError, on a list that is too
  short; so do the unpackings of the two other handlers, which also reject a list that
  is too long. The record that \<^verbatim>\<open>find\<close> returns is the object stored under the key, so a
  change of it is a change of the entry under that key.
\<close>

definition add_contact_func :: "pystr list \<Rightarrow> AddressBook \<Rightarrow> (error + pystr) \<times> AddressBook" where
  "add_contact_func args book =
     (case args of
        nm # phone # rest \<Rightarrow>
          (let em = (if rest \<noteq> [] then hd rest else [])
           in case AddressBook_find nm book of
                None \<Rightarrow>
                  (case Record_init nm (Some phone) em of
                     Inl e \<Rightarrow> (Inl e, book)
                   | Inr r \<Rightarrow> (Inr (lit ''Contact added.''), AddressBook_add_record r book))
              | Some r \<Rightarrow>
                  (case (if phone \<noteq> [] then Record_add_phone r phone else Inr r) of
                     Inl e \<Rightarrow> (Inl e, book)
                   | Inr r \<Rightarrow>
                       (let r = (if em \<noteq> [] then r\<lparr>email := em\<rparr> else r)
                        in (Inr (lit ''Contact updated.''), AList.update nm r book))))
      | _ \<Rightarrow>
          (Inl (ValueError (lit ''not enough values to unpack (expected at least 2, got ''
                  @ str_nat (length args) @ lit '')'')), book))"

definition add_contact :: "pystr list \<Rightarrow> AddressBook \<Rightarrow> pystr \<times> AddressBook" where
  "add_contact = input_error add_contact_func"

definition change_contact_func :: "pystr list \<Rightarrow> AddressBook \<Rightarrow> (error + pystr) \<times> AddressBook" where
  "change_contact_func args book =
     (case args of
        [nm, old_phone, new_phone] \<Rightarrow>
          (case AddressBook_find nm book of
             Some r \<Rightarrow>
               (case Record_edit_phone r old_phone new_phone of
                  Inl e \<Rightarrow> (Inl e, book)
                | Inr r \<Rightarrow> (Inr (lit ''Contact updated.''), AList.update nm r book))
           | None \<Rightarrow> (Inl (ValueError (lit ''Contact '' @ nm @ lit '' not found.'')), book))
      | _ \<Rightarrow>
          (if length args < 3
           then (Inl (ValueError (lit ''not enough values to unpack (expected 3, got ''
                   @ str_nat (length args) @ lit '')'')), book)
           else (Inl (ValueError (lit ''too many values to unpack (expected 3)'')), book)))"

definition change_contact :: "pystr list \<Rightarrow> AddressBook \<Rightarrow> pystr \<times> AddressBook" where
  "change_contact = input_error change_contact_func"

definition add_birthday_func :: "pystr list \<Rightarrow> AddressBook \<Rightarrow> (error + pystr) \<times> AddressBook" where
  "add_birthday_func args book =
     (case args of
        [nm, b] \<Rightarrow>
          (case AddressBook_find nm book of
             Some r \<Rightarrow>
               (case Record_add_birthday r b of
                  Inl e \<Rightarrow> (Inl e, book)
                | Inr r \<Rightarrow>
                    (Inr (lit ''Birthday added for '' @ nm @ lit ''.''), AList.update nm r book))
           | None \<Rightarrow> (Inl (ValueError (lit ''Contact '' @ nm @ lit '' not found.'')), book))
      | _ \<Rightarrow>
          (if length args < 2
           then (Inl (ValueError (lit ''not enough values to unpack (expected 2, got ''
                   @ str_nat (length args) @ lit '')'')), book)
           else (Inl (ValueError (lit ''too many values to unpack (expected 2)'')), book)))"

definition add_birthday :: "pystr list \<Rightarrow> AddressBook \<Rightarrow> pystr \<times> AddressBook" where
  "add_birthday = input_error add_birthday_func"

text \<open>\<^verbatim>\<open>show_phone\<close> indexes \<^verbatim>\<open>args[0]\<close>, which does raise IndexError on an empty list.\<close>

definition show_phone_func :: "pystr list \<Rightarrow> AddressBook \<Rightarrow> (error + pystr) \<times> AddressBook" where
  "show_phone_func args book =
     (case args of
        [] \<Rightarrow> (Inl (IndexError (lit ''list index out of range'')), book)
      | nm # _ \<Rightarrow>
          (case AddressBook_find nm book of
             Some r \<Rightarrow>
               (if phones r \<noteq> []
                then (Inr (nm @ lit '': '' @ join (lit '', '') (map Field_str (phones r))), book)
                else (Inl (ValueError (lit ''No phone found for '' @ nm @ lit ''.'')), book))
           | None \<Rightarrow> (Inl (ValueError (lit ''No phone found for '' @ nm @ lit ''.'')), book)))"

definition show_phone :: "pystr list \<Rightarrow> AddressBook \<Rightarrow> pystr \<times> AddressBook" where
  "show_phone = input_error show_phone_func"

section \<open>The specification's notions\<close>

text \<open>
  The strict format of the specification: two ASCII digits, a dot, two ASCII digits, a
  dot, four ASCII digits; and the numbers such a string denotes.
\<close>

definition spec_strict_format :: "pystr \<Rightarrow> bool" where
  "spec_strict_format s =
     (case s of
        [d1, d2, p, m1, m2, q, y1, y2, y3, y4] \<Rightarrow>
          ascii_digit d1 \<and> ascii_digit d2 \<and> p = 0x2E \<and> ascii_digit m1 \<and> ascii_digit m2
          \<and> q = 0x2E \<and> ascii_digit y1 \<and> ascii_digit y2 \<and> ascii_digit y3 \<and> ascii_digit y4
      | _ \<Rightarrow> False)"

definition ascii_value :: "nat \<Rightarrow> int" where
  "ascii_value c = int c - 0x30"

text \<open>A real calendar date, of the years that \<^verbatim>\<open>date\<close> has.\<close>

definition real_date :: "int \<Rightarrow> int \<Rightarrow> int \<Rightarrow> bool" where
  "real_date y m d =
     (1 \<le> y \<and> y \<le> 9999 \<and> 1 \<le> m \<and> m \<le> 12 \<and> 1 \<le> d \<and> d \<le> days_in_month y m)"

definition spec_denoted_date :: "pystr \<Rightarrow> date" where
  "spec_denoted_date s =
     \<lparr>year = 1000 * ascii_value (s ! 6) + 100 * ascii_value (s ! 7)
              + 10 * ascii_value (s ! 8) + ascii_value (s ! 9),
      month = 10 * ascii_value (s ! 3) + ascii_value (s ! 4),
      day = 10 * ascii_value (s ! 0) + ascii_value (s ! 1)\<rparr>"

definition valid_date :: "date \<Rightarrow> bool" where
  "valid_date d = real_date (year d) (month d) (day d)"

text \<open>
  The birthday of a record as a date, when it has one; the candidate of steps 1 and 2,
  the days of step 3 and the window of step 4.
\<close>

definition birthday_date :: "Record \<Rightarrow> date option" where
  "birthday_date r =
     (case birthday r of
        None \<Rightarrow> None
      | Some b \<Rightarrow> (case strptime_dmY (field_value b) of Inl _ \<Rightarrow> None | Inr d \<Rightarrow> Some d))"

definition spec_candidate :: "date \<Rightarrow> date \<Rightarrow> date" where
  "spec_candidate today bd =
     (let candidate = \<lparr>year = year today, month = month bd, day = day bd\<rparr>
      in if date_lt candidate today then candidate\<lparr>year := year today + 1\<rparr> else candidate)"

definition spec_days_until :: "date \<Rightarrow> date \<Rightarrow> int" where
  "spec_days_until today bd = toordinal (spec_candidate today bd) - toordinal today"

definition spec_included :: "date \<Rightarrow> Record \<Rightarrow> bool" where
  "spec_included today r =
     (case birthday_date r of
        None \<Rightarrow> False
      | Some bd \<Rightarrow> 0 \<le> spec_days_until today bd \<and> spec_days_until today bd \<le> 7)"

text \<open>
  Step 5: a candidate on a Saturday or a Sunday is moved to the day \<open>7 - weekday\<close> days
  later; the entry that the query reports for a record; and what it means for a reported
  date to be the next Monday of a weekend candidate.
\<close>

definition spec_effective :: "date \<Rightarrow> date" where
  "spec_effective candidate =
     (if weekday candidate = 5 \<or> weekday candidate = 6
      then ord2ymd (toordinal candidate + (7 - weekday candidate))
      else candidate)"

definition spec_entry :: "date \<Rightarrow> Record \<Rightarrow> entry option" where
  "spec_entry today r =
     (case birthday_date r of
        None \<Rightarrow> None
      | Some bd \<Rightarrow>
          if 0 \<le> spec_days_until today bd \<and> spec_days_until today bd \<le> 7
          then Some \<lparr>entry_name = field_value (name r),
                 entry_birthday = strftime_dmY (spec_effective (spec_candidate today bd))\<rparr>
          else None)"

definition spec_reported :: "date \<Rightarrow> entry \<Rightarrow> Record \<Rightarrow> bool" where
  "spec_reported today e r =
     (case birthday_date r of
        None \<Rightarrow> False
      | Some bd \<Rightarrow>
          entry_name e = field_value (name r)
          \<and> entry_birthday e = strftime_dmY (spec_effective (spec_candidate today bd)))"

definition spec_next_monday :: "date \<Rightarrow> date \<Rightarrow> bool" where
  "spec_next_monday candidate effective =
     (if weekday candidate = 5
      then toordinal effective = toordinal candidate + 2 \<and> weekday effective = 0
      else if weekday candidate = 6
      then toordinal effective = toordinal candidate + 1 \<and> weekday effective = 0
      else effective = candidate)"

text \<open>The candidate that the loop builds, when it can be built.\<close>

definition candidate_built :: "date \<Rightarrow> date \<Rightarrow> bool" where
  "candidate_built today bd =
     (real_date (year today) (month bd) (day bd)
      \<and> (date_lt \<lparr>year = year today, month = month bd, day = day bd\<rparr> today
           \<longrightarrow> real_date (year today + 1) (month bd) (day bd)))"

text \<open>
  Every birthday of the book is a string that \<^verbatim>\<open>Birthday\<close> accepts, and none is a
  29 February.
\<close>

definition no_leap_day_birthdays :: "AddressBook \<Rightarrow> bool" where
  "no_leap_day_birthdays book =
     list_all (\<lambda>r. case birthday r of
                     None \<Rightarrow> True
                   | Some b \<Rightarrow>
                       (case strptime_dmY (field_value b) of
                          Inl _ \<Rightarrow> False
                        | Inr bd \<Rightarrow> \<not> (month bd = 2 \<and> day bd = 29)))
       (map snd book)"

text \<open>A check of \<open>month_day\<close> on one day of the year, run over all of them below.\<close>

definition month_day_ok :: "bool \<Rightarrow> int \<Rightarrow> bool" where
  "month_day_ok lp n =
     (case month_day n lp of
        (m, d) \<Rightarrow>
          1 \<le> m \<and> m \<le> 12 \<and> 1 \<le> d
          \<and> d \<le> (if m = 2 \<and> lp then 29 else DAYS_IN_MONTH ! nat m)
          \<and> DAYS_BEFORE_MONTH ! nat m + (if m > 2 \<and> lp then 1 else 0) + d = n + 1)"

section \<open>Phones\<close>

lemma in_ranges_iff: "in_ranges c rs \<longleftrightarrow> (\<exists>(lo, hi) \<in> set rs. lo \<le> c \<and> c \<le> hi)"
  by (induction rs) auto

lemma ascii_digit_isdecimal: "ascii_digit c \<Longrightarrow> isdecimal_char c"
  by (simp add: ascii_digit_def isdecimal_char_def decimal_ranges_def)

lemma ascii_digit_isdigit: "ascii_digit c \<Longrightarrow> isdigit_char c"
  by (simp add: isdigit_char_def ascii_digit_isdecimal)

lemma spec_ascii_digits_isdigit:
  assumes "spec_ascii_digits v" and "v \<noteq> []"
  shows "isdigit v"
  using assms by (auto simp: spec_ascii_digits_def isdigit_def list_all_iff ascii_digit_isdigit)

lemma edit_phone_loop_found:
  "snd (edit_phone_loop ps old new) \<longleftrightarrow> old \<in> field_value ` set ps"
  by (induction ps) (auto split: prod.splits)

lemma edit_phone_loop_length:
  "length (fst (edit_phone_loop ps old new)) = length ps"
  by (induction ps) (auto split: prod.splits)

text \<open>
  What \<^verbatim>\<open>edit_phone\<close> does do: it fails exactly when no stored phone equals the old value,
  and otherwise overwrites the first match, and only it.
\<close>

lemma Record_edit_phone_not_found:
  "old \<notin> field_value ` set (phones r) \<Longrightarrow>
   Record_edit_phone r old new = Inl (ValueError (lit ''Phone number not found.''))"
  using edit_phone_loop_found [of "phones r" old new]
  by (cases "edit_phone_loop (phones r) old new") (auto simp: Record_edit_phone_def)

lemma edit_phone_loop_first:
  assumes "\<forall>p \<in> set pre. field_value p \<noteq> old" and "field_value q = old"
  shows "edit_phone_loop (pre @ q # post) old new = (pre @ Field new # post, True)"
  using assms by (induction pre) auto

lemma Record_edit_phone_first:
  assumes "phones r = pre @ q # post"
    and "\<forall>p \<in> set pre. field_value p \<noteq> old" and "field_value q = old"
  shows "Record_edit_phone r old new = Inr (r\<lparr>phones := pre @ Field new # post\<rparr>)"
  using edit_phone_loop_first [OF assms(2,3), of post new]
  by (simp add: Record_edit_phone_def assms(1))

lemma edit_phone_loop_find:
  "edit_phone_loop ps old new = (ps', True) \<Longrightarrow> find_phone_loop ps' new \<noteq> None"
  by (induction ps arbitrary: ps') (auto split: if_splits prod.splits)

lemma Record_edit_phone_find:
  "Record_edit_phone r old new = Inr r' \<Longrightarrow> Record_find_phone r' new \<noteq> None"
  using edit_phone_loop_find [of "phones r" old new]
  by (auto simp: Record_edit_phone_def Record_find_phone_def split: prod.splits if_splits)

text \<open>
  C3. \<^verbatim>\<open>edit_phone\<close> assigns the new string to the matching phone without building a
  \<^verbatim>\<open>Phone\<close> from it: on a record whose only phone is \<^verbatim>\<open>1111111111\<close>, editing it to \<^verbatim>\<open>abc\<close>
  succeeds and leaves \<^verbatim>\<open>abc\<close> in the list, a value that the constructor \<^verbatim>\<open>Phone\<close> (which
  \<^verbatim>\<open>add_phone\<close> goes through) rejects.
\<close>

theorem edit_phone_stores_unvalidated:
  "Record_edit_phone
     \<lparr>name = Name (lit ''John''), phones = [Field (lit ''1111111111'')], email = [],
      birthday = None\<rparr>
     (lit ''1111111111'') (lit ''abc'')
   = Inr \<lparr>name = Name (lit ''John''), phones = [Field (lit ''abc'')], email = [],
          birthday = None\<rparr>
   \<and> Phone_init (lit ''abc'') = Inl (ValueError (lit ''Phone number must be 10 digits.''))"
  by (simp add: Record_edit_phone_def Phone_init_def lit_def)

theorem edit_phone_stores_unvalidated_witness:
  "isl (Phone_init (lit ''abc''))
   \<and> \<not> isl (Record_edit_phone
       \<lparr>name = Name (lit ''John''), phones = [Field (lit ''1111111111'')], email = [],
        birthday = None\<rparr>
       (lit ''1111111111'') (lit ''abc''))"
  using edit_phone_stores_unvalidated by simp

text \<open>
  C4, as the spec states it, fails: a string of ten characters ARABIC-INDIC DIGIT ONE
  (U+0661) has no ASCII digit in it, and \<^verbatim>\<open>Phone\<close> accepts it.
\<close>

theorem Phone_init_non_ascii_counterexample:
  "Phone_init [0x661, 0x661, 0x661, 0x661, 0x661, 0x661, 0x661, 0x661, 0x661, 0x661]
     = Inr (Field [0x661, 0x661, 0x661, 0x661, 0x661, 0x661, 0x661, 0x661, 0x661, 0x661])
   \<and> \<not> spec_ascii_digits
         [0x661, 0x661, 0x661, 0x661, 0x661, 0x661, 0x661, 0x661, 0x661, 0x661]"
  by (simp add: Phone_init_def isdigit_def isdigit_char_def isdecimal_char_def
      decimal_ranges_def spec_ascii_digits_def ascii_digit_def)

text \<open>
  C4, amended. \<^verbatim>\<open>Phone(v)\<close> fails with the ValueError \<^verbatim>\<open>Phone number must be 10 digits.\<close>
  unless \<open>v\<close> has exactly ten characters, each of them a digit in the sense of
  \<^verbatim>\<open>str.isdigit\<close> (the ASCII digits and the other Unicode digits); in that case it
  succeeds with a phone that renders back to \<open>v\<close>. In particular every string of exactly
  ten ASCII decimal digits is accepted and renders back to itself.
\<close>

theorem Phone_init_accepts:
  "(length v = 10 \<and> list_all isdigit_char v \<longrightarrow>
      Phone_init v = Inr (Field v) \<and> Field_str (Field v) = v)
   \<and> (\<not> (length v = 10 \<and> list_all isdigit_char v) \<longrightarrow>
      Phone_init v = Inl (ValueError (lit ''Phone number must be 10 digits.'')))
   \<and> (length v = 10 \<and> spec_ascii_digits v \<longrightarrow>
      (\<exists>p. Phone_init v = Inr p \<and> Field_str p = v))"
proof (intro conjI impI)
  assume a: "length v = 10 \<and> list_all isdigit_char v"
  then have "v \<noteq> []" by auto
  with a show "Phone_init v = Inr (Field v)"
    by (simp add: Phone_init_def isdigit_def)
  show "Field_str (Field v) = v"
    by (simp add: Field_str_def)
next
  assume "\<not> (length v = 10 \<and> list_all isdigit_char v)"
  then show "Phone_init v = Inl (ValueError (lit ''Phone number must be 10 digits.''))"
    by (auto simp: Phone_init_def isdigit_def)
next
  assume a: "length v = 10 \<and> spec_ascii_digits v"
  then have "v \<noteq> []" by auto
  with a have "isdigit v"
    by (simp add: spec_ascii_digits_isdigit)
  with a show "\<exists>p. Phone_init v = Inr p \<and> Field_str p = v"
    by (simp add: Phone_init_def Field_str_def)
qed

theorem Phone_init_accepts_witness:
  "Phone_init (lit ''0501234567'') = Inr (Field (lit ''0501234567''))
   \<and> Field_str (Field (lit ''0501234567'')) = lit ''0501234567''
   \<and> Phone_init (lit ''12345'') = Inl (ValueError (lit ''Phone number must be 10 digits.''))
   \<and> Phone_init (lit ''05012x4567'') = Inl (ValueError (lit ''Phone number must be 10 digits.''))"
  using Phone_init_accepts [of "lit ''0501234567''"] Phone_init_accepts [of "lit ''12345''"]
    Phone_init_accepts [of "lit ''05012x4567''"]
  by (simp add: lit_def isdigit_char_def isdecimal_char_def decimal_ranges_def
      digit_only_ranges_def)

section \<open>The book as a dictionary\<close>

lemma filter_key_absent: "k \<notin> fst ` set al \<Longrightarrow> filter (\<lambda>kv. fst kv = k) al = []"
  by (induction al) auto

lemma filter_key_update:
  "distinct (map fst al) \<Longrightarrow> map snd (filter (\<lambda>kv. fst kv = k) (AList.update k v al)) = [v]"
  by (induction al) (auto simp: filter_key_absent)

text \<open>
  C7. Adding \<open>r1\<close> and then \<open>r2\<close> of the same name leaves the book as if \<open>r1\<close> had never
  been added: the lookup of the name gives \<open>r2\<close>, and in a book with distinct keys the
  entries under that name are \<open>r2\<close> alone.
\<close>

theorem add_record_twice_replaces:
  assumes "field_value (name r1) = field_value (name r2)"
  shows "AddressBook_add_record r2 (AddressBook_add_record r1 book)
           = AddressBook_add_record r2 book
       \<and> AddressBook_find (field_value (name r2))
           (AddressBook_add_record r2 (AddressBook_add_record r1 book)) = Some r2
       \<and> (distinct (map fst book) \<longrightarrow>
            map snd (filter (\<lambda>kv. fst kv = field_value (name r2))
              (AddressBook_add_record r2 (AddressBook_add_record r1 book))) = [r2])"
proof (intro conjI impI)
  show eq: "AddressBook_add_record r2 (AddressBook_add_record r1 book)
      = AddressBook_add_record r2 book"
    by (simp add: AddressBook_add_record_def assms)
  show "AddressBook_find (field_value (name r2))
      (AddressBook_add_record r2 (AddressBook_add_record r1 book)) = Some r2"
    by (simp add: eq) (simp add: AddressBook_add_record_def AddressBook_find_def AList.update_conv')
  assume d: "distinct (map fst book)"
  then show "map snd (filter (\<lambda>kv. fst kv = field_value (name r2))
      (AddressBook_add_record r2 (AddressBook_add_record r1 book))) = [r2]"
    by (simp add: eq) (simp add: AddressBook_add_record_def filter_key_update)
qed

theorem add_record_twice_replaces_witness:
  "AddressBook_find (lit ''Ann'')
     (AddressBook_add_record
        \<lparr>name = Name (lit ''Ann''), phones = [], email = lit ''b@x'', birthday = None\<rparr>
        (AddressBook_add_record
           \<lparr>name = Name (lit ''Ann''), phones = [Field (lit ''0501234567'')],
            email = lit ''a@x'', birthday = Some (Field (lit ''01.02.2000''))\<rparr> []))
   = Some \<lparr>name = Name (lit ''Ann''), phones = [], email = lit ''b@x'', birthday = None\<rparr>"
  using add_record_twice_replaces
    [of "\<lparr>name = Name (lit ''Ann''), phones = [Field (lit ''0501234567'')],
          email = lit ''a@x'', birthday = Some (Field (lit ''01.02.2000''))\<rparr>"
        "\<lparr>name = Name (lit ''Ann''), phones = [], email = lit ''b@x'', birthday = None\<rparr>"
        "[]"]
  by (simp add: Name_def AddressBook_add_record_def)

text \<open>
  C8. \<^verbatim>\<open>delete\<close> cannot raise (it removes the key only after the membership test), the
  name is absent after one call, and a second call returns the book it was given.
\<close>

theorem delete_idempotent:
  "AddressBook_find nm (AddressBook_delete nm book) = None
   \<and> AddressBook_delete nm (AddressBook_delete nm book) = AddressBook_delete nm book
   \<and> AddressBook_find nm (AddressBook_delete nm (AddressBook_delete nm book)) = None"
proof -
  have absent: "nm \<notin> set (map fst (AddressBook_delete nm book))"
    by (auto simp: AddressBook_delete_def AList.delete_eq)
  have 1: "AddressBook_find nm (AddressBook_delete nm book) = None"
    using absent by (simp add: AddressBook_find_def map_of_eq_None_iff)
  have 2: "AddressBook_delete nm (AddressBook_delete nm book) = AddressBook_delete nm book"
    using absent by (simp add: AddressBook_delete_def [of nm "AddressBook_delete nm book"])
  from 1 2 show ?thesis by simp
qed

theorem delete_idempotent_witness:
  "AddressBook_find (lit ''Ann'')
     (AddressBook_delete (lit ''Ann'')
        [(lit ''Ann'', \<lparr>name = Name (lit ''Ann''), phones = [], email = [], birthday = None\<rparr>)])
   = None"
  using delete_idempotent
    [of "lit ''Ann''"
        "[(lit ''Ann'', \<lparr>name = Name (lit ''Ann''), phones = [], email = [], birthday = None\<rparr>)]"]
  by simp

section \<open>Commands\<close>

lemma str_nat_digit: "n < 10 \<Longrightarrow> str_nat n = [0x30 + n]"
  by (subst str_nat.simps) simp

lemma lit_Nil [simp]: "lit [] = []"
  by (simp add: lit_def)

lemma add_contact_missing:
  "length args < 2 \<Longrightarrow>
   add_contact args book =
     (lit ''not enough values to unpack (expected at least 2, got '' @ str_nat (length args)
        @ lit '')'', book)"
  by (cases args; cases "tl args")
    (auto simp: add_contact_def input_error_def add_contact_func_def)

lemma change_contact_missing:
  "length args < 3 \<Longrightarrow>
   change_contact args book =
     (lit ''not enough values to unpack (expected 3, got '' @ str_nat (length args)
        @ lit '')'', book)"
  by (auto simp: change_contact_def input_error_def change_contact_func_def
      split: list.splits)

lemma add_birthday_missing:
  "length args < 2 \<Longrightarrow>
   add_birthday args book =
     (lit ''not enough values to unpack (expected 2, got '' @ str_nat (length args)
        @ lit '')'', book)"
  by (auto simp: add_birthday_def input_error_def add_birthday_func_def
      split: list.splits)

lemma show_phone_missing:
  "show_phone [] book = (lit ''Please provide all necessary arguments.'', book)"
  by (simp add: show_phone_def input_error_def show_phone_func_def)

text \<open>
  C6. With too few arguments the three handlers that unpack \<^verbatim>\<open>args\<close> answer with the
  text of the unpacking error, which the \<^verbatim>\<open>ValueError\<close> clause of \<^verbatim>\<open>input_error\<close> returns as
  it returns a validation message; the generic message of the \<^verbatim>\<open>IndexError\<close> clause is
  what \<^verbatim>\<open>show_phone\<close>, which indexes \<^verbatim>\<open>args[0]\<close>, answers.
\<close>

theorem missing_arguments_not_generic:
  "add_contact [lit ''John''] []
     = (lit ''not enough values to unpack (expected at least 2, got 1)'', [])
   \<and> change_contact [lit ''John'', lit ''1111111111''] []
     = (lit ''not enough values to unpack (expected 3, got 2)'', [])
   \<and> add_birthday [lit ''John''] []
     = (lit ''not enough values to unpack (expected 2, got 1)'', [])
   \<and> show_phone [] [] = (lit ''Please provide all necessary arguments.'', [])"
  by (simp add: add_contact_missing change_contact_missing add_birthday_missing
      show_phone_missing str_nat_digit) (simp add: lit_def)

theorem missing_arguments_not_generic_witness:
  "fst (add_contact [lit ''John''] []) \<noteq> lit ''Please provide all necessary arguments.''
   \<and> fst (change_contact [lit ''John'', lit ''1111111111''] [])
       \<noteq> lit ''Please provide all necessary arguments.''
   \<and> fst (add_birthday [lit ''John''] []) \<noteq> lit ''Please provide all necessary arguments.''"
  using missing_arguments_not_generic by (simp add: lit_def)

text \<open>
  C10, as stated, fails for a phone that \<^verbatim>\<open>Phone\<close> rejects: the command answers with the
  validation message and the record keeps its phones.
\<close>

theorem add_contact_invalid_phone_counterexample:
  "add_contact [lit ''John'', lit ''abc'']
     [(lit ''John'', \<lparr>name = Name (lit ''John''), phones = [Field (lit ''1111111111'')],
         email = [], birthday = None\<rparr>)]
   = (lit ''Phone number must be 10 digits.'',
      [(lit ''John'', \<lparr>name = Name (lit ''John''), phones = [Field (lit ''1111111111'')],
         email = [], birthday = None\<rparr>)])"
  by (simp add: add_contact_def input_error_def add_contact_func_def AddressBook_find_def
      Record_add_phone_def Phone_init_def lit_def)

text \<open>
  C10, amended. For a book with a record under the name \<open>nm\<close>, \<^verbatim>\<open>add nm phone [email]\<close> with a
  phone that passes the validation of \<^verbatim>\<open>Phone\<close> appends the phone to the phones of that
  record, overwrites the email only when a non-empty email is given, leaves the name, the
  earlier phones and the birthday of the record and every other entry as they are, and
  answers \<^verbatim>\<open>Contact updated.\<close>; with a non-empty phone that fails the validation it answers
  with the validation message and leaves the book unchanged.
\<close>

theorem add_contact_existing_merges:
  assumes "AddressBook_find nm book = Some r"
  shows "(length phone = 10 \<and> list_all isdigit_char phone \<longrightarrow>
            add_contact (nm # phone # rest) book
              = (lit ''Contact updated.'',
                 AList.update nm
                   (r\<lparr>phones := phones r @ [Field phone],
                      email := (if rest \<noteq> [] \<and> hd rest \<noteq> [] then hd rest else email r)\<rparr>)
                   book))
       \<and> (phone \<noteq> [] \<and> \<not> (length phone = 10 \<and> list_all isdigit_char phone) \<longrightarrow>
            add_contact (nm # phone # rest) book
              = (lit ''Phone number must be 10 digits.'', book))"
proof (intro conjI impI)
  assume a: "length phone = 10 \<and> list_all isdigit_char phone"
  then have ne: "phone \<noteq> []" by auto
  with a have p: "Phone_init phone = Inr (Field phone)"
    by (simp add: Phone_init_def isdigit_def)
  show "add_contact (nm # phone # rest) book
      = (lit ''Contact updated.'',
         AList.update nm
           (r\<lparr>phones := phones r @ [Field phone],
              email := (if rest \<noteq> [] \<and> hd rest \<noteq> [] then hd rest else email r)\<rparr>)
           book)"
    using assms ne p
    by (simp add: add_contact_def input_error_def add_contact_func_def Record_add_phone_def
        Let_def)
next
  assume a: "phone \<noteq> [] \<and> \<not> (length phone = 10 \<and> list_all isdigit_char phone)"
  then have p: "Phone_init phone = Inl (ValueError (lit ''Phone number must be 10 digits.''))"
    by (auto simp: Phone_init_def isdigit_def)
  show "add_contact (nm # phone # rest) book = (lit ''Phone number must be 10 digits.'', book)"
    using assms a p
    by (simp add: add_contact_def input_error_def add_contact_func_def Record_add_phone_def)
qed

theorem add_contact_existing_merges_witness:
  "add_contact [lit ''John'', lit ''2222222222'', lit ''j@x'']
     [(lit ''John'', \<lparr>name = Name (lit ''John''), phones = [Field (lit ''1111111111'')],
         email = lit ''old@x'', birthday = Some (Field (lit ''02.01.2000''))\<rparr>)]
   = (lit ''Contact updated.'',
      [(lit ''John'', \<lparr>name = Name (lit ''John''),
         phones = [Field (lit ''1111111111''), Field (lit ''2222222222'')],
         email = lit ''j@x'', birthday = Some (Field (lit ''02.01.2000''))\<rparr>)])
   \<and> add_contact [lit ''John'', lit ''2222222222'']
     [(lit ''John'', \<lparr>name = Name (lit ''John''), phones = [Field (lit ''1111111111'')],
         email = lit ''old@x'', birthday = Some (Field (lit ''02.01.2000''))\<rparr>)]
   = (lit ''Contact updated.'',
      [(lit ''John'', \<lparr>name = Name (lit ''John''),
         phones = [Field (lit ''1111111111''), Field (lit ''2222222222'')],
         email = lit ''old@x'', birthday = Some (Field (lit ''02.01.2000''))\<rparr>)])"
  using add_contact_existing_merges
    [of "lit ''John''"
        "[(lit ''John'', \<lparr>name = Name (lit ''John''), phones = [Field (lit ''1111111111'')],
             email = lit ''old@x'', birthday = Some (Field (lit ''02.01.2000''))\<rparr>)]"
        "\<lparr>name = Name (lit ''John''), phones = [Field (lit ''1111111111'')],
             email = lit ''old@x'', birthday = Some (Field (lit ''02.01.2000''))\<rparr>"
        "lit ''2222222222''" "[lit ''j@x'']"]
    add_contact_existing_merges
    [of "lit ''John''"
        "[(lit ''John'', \<lparr>name = Name (lit ''John''), phones = [Field (lit ''1111111111'')],
             email = lit ''old@x'', birthday = Some (Field (lit ''02.01.2000''))\<rparr>)]"
        "\<lparr>name = Name (lit ''John''), phones = [Field (lit ''1111111111'')],
             email = lit ''old@x'', birthday = Some (Field (lit ''02.01.2000''))\<rparr>"
        "lit ''2222222222''" "[]"]
  by (simp add: AddressBook_find_def lit_def isdigit_char_def isdecimal_char_def
      decimal_ranges_def)

section \<open>Ordinals and dates\<close>

lemma md_nonleap: "list_all (month_day_ok False) [0..364]"
  by code_simp

lemma md_leap: "list_all (month_day_ok True) [0..365]"
  by code_simp

lemma month_day_ok_all:
  assumes "0 \<le> n" "n < (if lp then 366 else 365)"
  shows "month_day_ok lp n"
proof (cases lp)
  case True
  with assms have "n \<in> set [0..365]" by auto
  with md_leap True show ?thesis by (auto simp: list_all_iff)
next
  case False
  with assms have "n \<in> set [0..364]" by auto
  with md_nonleap False show ?thesis by (auto simp: list_all_iff)
qed

lemma div_eqI: "0 \<le> r \<Longrightarrow> r < d \<Longrightarrow> (d * q + r) div d = (q::int)"
  by (simp add: div_pos_pos_trivial)

lemma days_before_year_decomp:
  assumes "0 \<le> b" "b \<le> 3" "0 \<le> c" "c \<le> 24" "0 \<le> e" "e \<le> 3"
  shows "days_before_year (400 * a + 100 * b + 4 * c + e + 1)
         = 146097 * a + 36524 * b + 1461 * c + 365 * e"
proof -
  let ?y = "400 * a + 100 * b + 4 * c + e"
  have 4: "?y div 4 = 100 * a + 25 * b + c"
    using div_eqI [of e 4 "100 * a + 25 * b + c"] assms by (simp add: algebra_simps)
  have 100: "?y div 100 = 4 * a + b"
    using div_eqI [of "4 * c + e" 100 "4 * a + b"] assms by (simp add: algebra_simps)
  have 400: "?y div 400 = a"
    using div_eqI [of "100 * b + 4 * c + e" 400 a] assms by (simp add: algebra_simps)
  show ?thesis
    by (simp add: days_before_year_def Let_def 4 100 400)
qed

lemma mod_eq0I: "0 < r \<Longrightarrow> r \<le> d \<Longrightarrow> ((d * q + r) mod d = 0) = (r = (d::int))"
  by (cases "r = d") (simp_all add: mod_pos_pos_trivial)

lemma is_leap_decomp:
  assumes "0 \<le> b" "b \<le> 3" "0 \<le> c" "c \<le> 24" "0 \<le> e" "e \<le> 3"
  shows "is_leap (400 * a + 100 * b + 4 * c + e + 1) \<longleftrightarrow> (e = 3 \<and> (c \<noteq> 24 \<or> b = 3))"
proof -
  let ?y = "400 * a + 100 * b + 4 * c + e + 1"
  have 4: "(?y mod 4 = 0) = (e = 3)"
    using mod_eq0I [of "e + 1" 4 "100 * a + 25 * b + c"] assms by (simp add: algebra_simps)
  have "(?y mod 100 = 0) = (4 * c + e + 1 = 100)"
    using mod_eq0I [of "4 * c + e + 1" 100 "4 * a + b"] assms by (simp add: algebra_simps)
  also have "\<dots> = (c = 24 \<and> e = 3)"
    using assms by presburger
  finally have 100: "(?y mod 100 = 0) = (c = 24 \<and> e = 3)" .
  have "(?y mod 400 = 0) = (100 * b + 4 * c + e + 1 = 400)"
    using mod_eq0I [of "100 * b + 4 * c + e + 1" 400 a] assms by (simp add: algebra_simps)
  also have "\<dots> = (b = 3 \<and> c = 24 \<and> e = 3)"
    using assms by presburger
  finally have 400: "(?y mod 400 = 0) = (b = 3 \<and> c = 24 \<and> e = 3)" .
  show ?thesis
    unfolding is_leap_def 4 100 400 by auto
qed

lemma toordinal_ord2ymd:
  assumes "1 \<le> n"
  shows "toordinal (ord2ymd n) = n"
proof -
  define n0 where "n0 = n - 1"
  define n400 where "n400 = n0 div 146097"
  define r1 where "r1 = n0 mod 146097"
  define n100 where "n100 = r1 div 36524"
  define r2 where "r2 = r1 mod 36524"
  define n4 where "n4 = r2 div 1461"
  define r3 where "r3 = r2 mod 1461"
  define n1 where "n1 = r3 div 365"
  define r4 where "r4 = r3 mod 365"
  have e1: "n0 = 146097 * n400 + r1" and b1: "0 \<le> r1" "r1 < 146097"
    by (simp_all add: n400_def r1_def)
  have e2: "r1 = 36524 * n100 + r2" and b2: "0 \<le> r2" "r2 < 36524"
    by (simp_all add: n100_def r2_def)
  have e3: "r2 = 1461 * n4 + r3" and b3: "0 \<le> r3" "r3 < 1461"
    by (simp_all add: n4_def r3_def)
  have e4: "r3 = 365 * n1 + r4" and b4: "0 \<le> r4" "r4 < 365"
    by (simp_all add: n1_def r4_def)
  have c100: "0 \<le> n100" "n100 \<le> 4" using e2 b1 b2 by linarith+
  have c4: "0 \<le> n4" "n4 \<le> 24" using e3 b2 b3 by linarith+
  have c1: "0 \<le> n1" "n1 \<le> 4" using e4 b3 b4 by linarith+
  have unf: "ord2ymd n =
     (if n1 = 4 \<or> n100 = 4
      then \<lparr>year = n400 * 400 + 1 + (n100 * 100 + n4 * 4 + n1) - 1, month = 12, day = 31\<rparr>
      else case month_day r4 (n1 = 3 \<and> (n4 \<noteq> 24 \<or> n100 = 3)) of
             (mo, d) \<Rightarrow> \<lparr>year = n400 * 400 + 1 + (n100 * 100 + n4 * 4 + n1), month = mo, day = d\<rparr>)"
    by (simp add: ord2ymd_def Let_def n0_def n400_def r1_def n100_def r2_def n4_def r3_def
        n1_def r4_def)
  show ?thesis
  proof (cases "n1 = 4 \<or> n100 = 4")
    case False
    then have lt: "n100 \<le> 3" "n1 \<le> 3" using c100 c1 by linarith+
    let ?lp = "n1 = 3 \<and> (n4 \<noteq> 24 \<or> n100 = 3)"
    let ?yr = "400 * n400 + 100 * n100 + 4 * n4 + n1 + 1"
    obtain mo d where md: "month_day r4 ?lp = (mo, d)" by force
    have "month_day_ok ?lp r4"
      using b4 by (intro month_day_ok_all) auto
    with md have ok: "1 \<le> mo" "mo \<le> 12"
        "DAYS_BEFORE_MONTH ! nat mo + (if mo > 2 \<and> ?lp then 1 else 0) + d = r4 + 1"
      by (simp_all add: month_day_ok_def)
    have dby: "days_before_year ?yr = 146097 * n400 + 36524 * n100 + 1461 * n4 + 365 * n1"
      using c100 c4 c1 lt by (intro days_before_year_decomp) auto
    have lp: "is_leap ?yr = ?lp"
      using c100 c4 c1 lt by (intro is_leap_decomp) auto
    have "ord2ymd n = \<lparr>year = ?yr, month = mo, day = d\<rparr>"
      using False md by (simp add: unf algebra_simps)
    then have "toordinal (ord2ymd n) = days_before_year ?yr + (DAYS_BEFORE_MONTH ! nat mo + (if mo > 2 \<and> ?lp then 1 else 0)) + d"
      by (simp add: toordinal_def ymd2ord_def days_before_month_def lp)
    also have "\<dots> = n0 + 1"
      using ok(3) dby e1 e2 e3 e4 by linarith
    finally show ?thesis by (simp add: n0_def)
  next
    case True
    show ?thesis
    proof (cases "n100 = 4")
      case True
      then have z: "r2 = 0" "n4 = 0" "n1 = 0" "r4 = 0"
        using e2 e3 e4 b1 b2 b3 b4 c4 c1 by linarith+
      let ?yr = "400 * n400 + 100 * 3 + 4 * 24 + 3 + 1"
      have dby: "days_before_year ?yr = 146097 * n400 + 36524 * 3 + 1461 * 24 + 365 * 3"
        by (intro days_before_year_decomp) auto
      have lp: "is_leap ?yr"
        by (subst is_leap_decomp) auto
      have "ord2ymd n = \<lparr>year = ?yr, month = 12, day = 31\<rparr>"
        using True z by (simp add: unf)
      then have "toordinal (ord2ymd n) = days_before_year ?yr + 366"
        using lp by (simp add: toordinal_def ymd2ord_def days_before_month_def
            DAYS_BEFORE_MONTH_def)
      also have "\<dots> = n0 + 1"
        using dby e1 e2 True z by linarith
      finally show ?thesis by (simp add: n0_def)
    next
      case False
      with \<open>n1 = 4 \<or> n100 = 4\<close> have n1: "n1 = 4" by simp
      from False have lt: "n100 \<le> 3" using c100 by linarith
      have z: "r4 = 0" "n4 \<le> 23"
        using n1 e3 e4 b2 b3 b4 by linarith+
      let ?yr = "400 * n400 + 100 * n100 + 4 * n4 + 3 + 1"
      have dby: "days_before_year ?yr = 146097 * n400 + 36524 * n100 + 1461 * n4 + 365 * 3"
        using c100 c4 lt by (intro days_before_year_decomp) auto
      have lp: "is_leap ?yr"
        using c100 c4 lt z by (subst is_leap_decomp) auto
      have "ord2ymd n = \<lparr>year = ?yr, month = 12, day = 31\<rparr>"
        using n1 by (simp add: unf algebra_simps)
      then have "toordinal (ord2ymd n) = days_before_year ?yr + 366"
        using lp by (simp add: toordinal_def ymd2ord_def days_before_month_def
            DAYS_BEFORE_MONTH_def)
      also have "\<dots> = n0 + 1"
        using dby e1 e2 e3 e4 n1 z by linarith
      finally show ?thesis by (simp add: n0_def)
    qed
  qed
qed

lemma month_cases:
  fixes m :: int
  assumes "1 \<le> m" "m \<le> 12"
  shows "m = 1 \<or> m = 2 \<or> m = 3 \<or> m = 4 \<or> m = 5 \<or> m = 6
    \<or> m = 7 \<or> m = 8 \<or> m = 9 \<or> m = 10 \<or> m = 11 \<or> m = 12"
  using assms by arith

lemma day_of_year_bounds:
  assumes "1 \<le> m" "m \<le> 12" "1 \<le> d" "d \<le> days_in_month y m"
  shows "1 \<le> days_before_month y m + d"
    and "days_before_month y m + d \<le> (if is_leap y then 366 else 365)"
  using month_cases [OF assms(1,2)] assms(3,4)
  by (auto simp: days_before_month_def days_in_month_def DAYS_BEFORE_MONTH_def
        DAYS_IN_MONTH_def split: if_splits)

lemma days_before_year_bounds:
  assumes "1 \<le> y" "y \<le> 9999"
  shows "0 \<le> days_before_year y"
    and "days_before_year y + (if is_leap y then 366 else 365) \<le> MAXORDINAL"
proof -
  have a: "(y - 1) div 100 \<le> (y - 1) div 4"
    using assms by (intro zdiv_mono2) auto
  have b: "0 \<le> (y - 1) div 400" "0 \<le> (y - 1) div 100"
    using assms by simp_all
  show "0 \<le> days_before_year y"
    using a b assms by (simp add: days_before_year_def Let_def)
  show "days_before_year y + (if is_leap y then 366 else 365) \<le> MAXORDINAL"
  proof (cases "y = 9999")
    case True
    then show ?thesis
      by (simp add: days_before_year_def is_leap_def MAXORDINAL_def)
  next
    case False
    with assms have le: "y - 1 \<le> 9997" by simp
    have "(y - 1) div 4 \<le> 9997 div 4" "(y - 1) div 400 \<le> 9997 div 400"
      using le by (intro zdiv_mono1; simp)+
    then have "(y - 1) div 4 \<le> 2499" "(y - 1) div 400 \<le> 24" by simp_all
    with b le show ?thesis
      by (simp add: days_before_year_def Let_def MAXORDINAL_def)
  qed
qed

lemma toordinal_bounds:
  assumes "valid_date d"
  shows "1 \<le> toordinal d" and "toordinal d \<le> MAXORDINAL"
proof -
  from assms have r: "1 \<le> year d" "year d \<le> 9999" "1 \<le> month d" "month d \<le> 12"
      "1 \<le> day d" "day d \<le> days_in_month (year d) (month d)"
    by (simp_all add: valid_date_def real_date_def)
  note 1 = day_of_year_bounds [OF r(3,4,5,6)]
  note 2 = days_before_year_bounds [OF r(1,2)]
  show "1 \<le> toordinal d"
    using 1(1) 2(1) by (simp add: toordinal_def ymd2ord_def)
  show "toordinal d \<le> MAXORDINAL"
    using 1(2) 2(2) by (simp add: toordinal_def ymd2ord_def split: if_splits)
qed

lemma date_new_Inr:
  "date_new y m d = Inr dt \<longleftrightarrow> real_date y m d \<and> dt = \<lparr>year = y, month = m, day = d\<rparr>"
  by (auto simp: date_new_def real_date_def)

lemma date_new_valid: "date_new y m d = Inr dt \<Longrightarrow> valid_date dt"
  by (auto simp: date_new_Inr valid_date_def)

lemma weekday_range: "0 \<le> weekday d \<and> weekday d \<le> 6"
  by (simp add: weekday_def)

text \<open>The last day that \<^verbatim>\<open>date\<close> has is a Friday, so the shift to Monday never overflows.\<close>

lemma weekend_shift_in_range:
  assumes "valid_date d" "5 \<le> weekday d"
  shows "0 < toordinal d + (7 - weekday d)" "toordinal d + (7 - weekday d) \<le> MAXORDINAL"
proof -
  note b = toordinal_bounds [OF assms(1)]
  note w = weekday_range [of d]
  show "0 < toordinal d + (7 - weekday d)"
    using b w by linarith
  have "weekday d = 5 \<or> weekday d = 6" using assms(2) w by linarith
  then show "toordinal d + (7 - weekday d) \<le> MAXORDINAL"
    using b(2) unfolding weekday_def MAXORDINAL_def by presburger
qed

lemma date_add_days_weekend:
  assumes "valid_date d" "5 \<le> weekday d"
  shows "date_add_days d (7 - weekday d) = Inr (ord2ymd (toordinal d + (7 - weekday d)))"
  using weekend_shift_in_range [OF assms] by (simp add: date_add_days_def Let_def)

lemma next_monday:
  assumes "valid_date d" "5 \<le> weekday d"
  shows "toordinal (ord2ymd (toordinal d + (7 - weekday d))) = toordinal d + (7 - weekday d)"
    and "weekday (ord2ymd (toordinal d + (7 - weekday d))) = 0"
proof -
  have pos: "1 \<le> toordinal d + (7 - weekday d)"
    using weekend_shift_in_range(1) [OF assms] by simp
  show 1: "toordinal (ord2ymd (toordinal d + (7 - weekday d))) = toordinal d + (7 - weekday d)"
    by (rule toordinal_ord2ymd [OF pos])
  have "(toordinal d + (7 - (toordinal d + 6) mod 7) + 6) mod 7 = 0"
    by presburger
  then show "weekday (ord2ymd (toordinal d + (7 - weekday d))) = 0"
    unfolding weekday_def [of "ord2ymd _"] 1 by (simp add: weekday_def)
qed

section \<open>Birthdays\<close>

lemmas eval_strptime =
  lit_def strptime_dmY_def format_regex_match_def re_d_def re_m_def re_Y_def re_dot_def
  in_1_9_def isdecimal_char_def decimal_ranges_def py_int_def decimal_value_def
  date_new_def days_in_month_def DAYS_IN_MONTH_def is_leap_def

lemma re_d_sound:
  "(d, r) \<in> set (re_d s) \<Longrightarrow> s = d @ r \<and> (length d = 1 \<or> length d = 2)"
  by (auto simp: re_d_def split: list.splits if_splits)

lemma re_m_sound:
  "(m, r) \<in> set (re_m s) \<Longrightarrow> s = m @ r \<and> (length m = 1 \<or> length m = 2)"
  by (auto simp: re_m_def split: list.splits if_splits)

lemma re_Y_sound:
  "(y, r) \<in> set (re_Y s) \<Longrightarrow> s = y @ r \<and> length y = 4 \<and> list_all isdecimal_char y"
  by (auto simp: re_Y_def split: list.splits if_splits)

lemma re_dot_sound: "r \<in> set (re_dot s) \<Longrightarrow> s = 0x2E # r"
  by (auto simp: re_dot_def split: list.splits if_splits)

lemma format_regex_match_sound:
  assumes "(d, m, y, rest) \<in> set (format_regex_match s)"
  shows "s = d @ 0x2E # m @ 0x2E # y @ rest
       \<and> (length d = 1 \<or> length d = 2) \<and> (length m = 1 \<or> length m = 2)
       \<and> length y = 4 \<and> list_all isdecimal_char y"
proof -
  from assms obtain r1 r2 r3 r4 where
    "(d, r1) \<in> set (re_d s)" "r2 \<in> set (re_dot r1)" "(m, r3) \<in> set (re_m r2)"
    "r4 \<in> set (re_dot r3)" "(y, rest) \<in> set (re_Y r4)"
    by (auto simp: format_regex_match_def)
  then show ?thesis
    using re_d_sound [of d r1 s] re_dot_sound [of r2 r1] re_m_sound [of m r3 r2]
      re_dot_sound [of r4 r3] re_Y_sound [of y rest r4]
    by simp
qed

lemma strptime_dmY_Inr:
  assumes "strptime_dmY s = Inr dt"
  shows "\<exists>d m y. s = d @ 0x2E # m @ 0x2E # y
       \<and> (length d = 1 \<or> length d = 2) \<and> (length m = 1 \<or> length m = 2)
       \<and> length y = 4 \<and> list_all isdecimal_char y
       \<and> real_date (py_int y) (py_int m) (py_int d)
       \<and> dt = \<lparr>year = py_int y, month = py_int m, day = py_int d\<rparr>"
proof (cases "format_regex_match s")
  case Nil
  with assms show ?thesis by (simp add: strptime_dmY_def)
next
  case (Cons x xs)
  obtain d m y rest where x: "x = (d, m, y, rest)" by (cases x) auto
  with Cons have "(d, m, y, rest) \<in> set (format_regex_match s)" by simp
  note snd = format_regex_match_sound [OF this]
  from assms Cons x have rest: "rest = []"
    and dn: "date_new (py_int y) (py_int m) (py_int d) = Inr dt"
    by (auto simp: strptime_dmY_def split: if_splits sum.splits)
  from dn have "real_date (py_int y) (py_int m) (py_int d)"
    and "dt = \<lparr>year = py_int y, month = py_int m, day = py_int d\<rparr>"
    by (simp_all add: date_new_def real_date_def split: if_splits)
  with snd rest show ?thesis by auto
qed

lemma decimal_value_ascii: "ascii_digit c \<Longrightarrow> decimal_value c = ascii_value c"
  by (auto simp: ascii_digit_def decimal_value_def decimal_ranges_def ascii_value_def
      mod_if)

lemma ascii_digit_not_space: "ascii_digit c \<Longrightarrow> c \<noteq> 0x20 \<and> c \<noteq> 0x2E"
  by (auto simp: ascii_digit_def)

lemma py_int_2:
  "ascii_digit a \<Longrightarrow> ascii_digit b \<Longrightarrow> py_int [a, b] = 10 * ascii_value a + ascii_value b"
  by (simp add: py_int_def decimal_value_ascii ascii_digit_not_space)

lemma py_int_4:
  "ascii_digit a \<Longrightarrow> ascii_digit b \<Longrightarrow> ascii_digit c \<Longrightarrow> ascii_digit d \<Longrightarrow>
   py_int [a, b, c, d]
     = 1000 * ascii_value a + 100 * ascii_value b + 10 * ascii_value c + ascii_value d"
  by (simp add: py_int_def decimal_value_ascii ascii_digit_not_space)

lemma ascii_digit_cases:
  "ascii_digit c \<Longrightarrow> c = 48 \<or> c = 49 \<or> c = 50 \<or> c = 51 \<or> c = 52 \<or> c = 53
     \<or> c = 54 \<or> c = 55 \<or> c = 56 \<or> c = 57"
  unfolding ascii_digit_def by arith

lemma re_d_strict:
  assumes "ascii_digit a" "ascii_digit b"
    and "1 \<le> 10 * ascii_value a + ascii_value b" "10 * ascii_value a + ascii_value b \<le> 31"
  shows "\<exists>more. re_d (a # b # r) = ([a, b], r) # more"
  using ascii_digit_cases [OF assms(1)] assms(2,3,4) ascii_digit_isdecimal [OF assms(2)]
  by (elim disjE) (auto simp: re_d_def ascii_value_def ascii_digit_def in_1_9_def)

lemma re_m_strict:
  assumes "ascii_digit a" "ascii_digit b"
    and "1 \<le> 10 * ascii_value a + ascii_value b" "10 * ascii_value a + ascii_value b \<le> 12"
  shows "\<exists>more. re_m (a # b # r) = ([a, b], r) # more"
  using ascii_digit_cases [OF assms(1)] assms(2,3,4)
  by (elim disjE) (auto simp: re_m_def ascii_value_def ascii_digit_def in_1_9_def)

lemma re_Y_strict:
  assumes "ascii_digit a" "ascii_digit b" "ascii_digit c" "ascii_digit d"
  shows "re_Y (a # b # c # d # r) = [([a, b, c, d], r)]"
  using assms by (simp add: re_Y_def ascii_digit_isdecimal)

lemma re_dot_dot: "re_dot (0x2E # r) = [r]"
  by (simp add: re_dot_def)

lemma format_regex_match_strict:
  assumes "ascii_digit d1" "ascii_digit d2" "ascii_digit m1" "ascii_digit m2"
    and "ascii_digit y1" "ascii_digit y2" "ascii_digit y3" "ascii_digit y4"
    and "1 \<le> 10 * ascii_value d1 + ascii_value d2" "10 * ascii_value d1 + ascii_value d2 \<le> 31"
    and "1 \<le> 10 * ascii_value m1 + ascii_value m2" "10 * ascii_value m1 + ascii_value m2 \<le> 12"
  shows "\<exists>more. format_regex_match [d1, d2, 0x2E, m1, m2, 0x2E, y1, y2, y3, y4]
           = ([d1, d2], [m1, m2], [y1, y2, y3, y4], []) # more"
proof -
  from re_d_strict [OF assms(1,2,9,10)] obtain more_d where
    d: "re_d [d1, d2, 0x2E, m1, m2, 0x2E, y1, y2, y3, y4]
          = ([d1, d2], [0x2E, m1, m2, 0x2E, y1, y2, y3, y4]) # more_d"
    by blast
  from re_m_strict [OF assms(3,4,11,12)] obtain more_m where
    m: "re_m [m1, m2, 0x2E, y1, y2, y3, y4] = ([m1, m2], [0x2E, y1, y2, y3, y4]) # more_m"
    by blast
  note y = re_Y_strict [OF assms(5,6,7,8), of "[]"]
  show ?thesis
    by (simp add: format_regex_match_def d m y re_dot_dot)
qed

lemma strptime_dmY_strict:
  assumes "spec_strict_format s" "valid_date (spec_denoted_date s)"
  shows "strptime_dmY s = Inr (spec_denoted_date s)"
proof -
  from assms(1) obtain d1 d2 m1 m2 y1 y2 y3 y4 where
    s: "s = [d1, d2, 0x2E, m1, m2, 0x2E, y1, y2, y3, y4]"
    and a: "ascii_digit d1" "ascii_digit d2" "ascii_digit m1" "ascii_digit m2"
      "ascii_digit y1" "ascii_digit y2" "ascii_digit y3" "ascii_digit y4"
    by (auto simp: spec_strict_format_def split: list.splits)
  have den: "spec_denoted_date s =
      \<lparr>year = 1000 * ascii_value y1 + 100 * ascii_value y2 + 10 * ascii_value y3
              + ascii_value y4,
       month = 10 * ascii_value m1 + ascii_value m2,
       day = 10 * ascii_value d1 + ascii_value d2\<rparr>"
    by (simp add: spec_denoted_date_def s)
  from assms(2) have r: "real_date
      (1000 * ascii_value y1 + 100 * ascii_value y2 + 10 * ascii_value y3 + ascii_value y4)
      (10 * ascii_value m1 + ascii_value m2) (10 * ascii_value d1 + ascii_value d2)"
    by (simp add: valid_date_def den)
  then have m12: "1 \<le> 10 * ascii_value m1 + ascii_value m2"
      "10 * ascii_value m1 + ascii_value m2 \<le> 12"
    and d1: "1 \<le> 10 * ascii_value d1 + ascii_value d2"
    and dim: "10 * ascii_value d1 + ascii_value d2 \<le> days_in_month
      (1000 * ascii_value y1 + 100 * ascii_value y2 + 10 * ascii_value y3 + ascii_value y4)
      (10 * ascii_value m1 + ascii_value m2)"
    by (simp_all add: real_date_def)
  have "10 * ascii_value d1 + ascii_value d2 \<le> 31"
    using dim month_cases [OF m12]
    by (auto simp: days_in_month_def DAYS_IN_MONTH_def split: if_splits)
  from format_regex_match_strict [OF a d1 this m12] obtain more where
    "format_regex_match s = ([d1, d2], [m1, m2], [y1, y2, y3, y4], []) # more"
    unfolding s by blast
  moreover have "date_new
      (1000 * ascii_value y1 + 100 * ascii_value y2 + 10 * ascii_value y3 + ascii_value y4)
      (10 * ascii_value m1 + ascii_value m2) (10 * ascii_value d1 + ascii_value d2)
      = Inr (spec_denoted_date s)"
    using r by (simp add: date_new_Inr den)
  ultimately show ?thesis
    by (simp add: strptime_dmY_def py_int_2 py_int_4 a)
qed

lemma strict_format_decompose:
  assumes "spec_strict_format s" and "s = d @ 0x2E # m @ 0x2E # y"
    and "length d = 1 \<or> length d = 2" and "length m = 1 \<or> length m = 2"
  shows "d = [s ! 0, s ! 1] \<and> m = [s ! 3, s ! 4] \<and> y = [s ! 6, s ! 7, s ! 8, s ! 9]"
proof -
  from assms(1) obtain d1 d2 m1 m2 y1 y2 y3 y4 where
    s: "s = [d1, d2, 0x2E, m1, m2, 0x2E, y1, y2, y3, y4]"
    and a: "ascii_digit d1" "ascii_digit d2" "ascii_digit m1" "ascii_digit m2"
    by (auto simp: spec_strict_format_def split: list.splits)
  have ld: "length d = 2"
  proof (rule ccontr)
    assume "length d \<noteq> 2"
    with assms(3) obtain x where "d = [x]" by (cases d) auto
    with assms(2) s have "d2 = 0x2E" by simp
    with a(2) show False by (simp add: ascii_digit_def)
  qed
  then obtain x1 x2 where d: "d = [x1, x2]"
    by (cases d; cases "tl d") auto
  have lm: "length m = 2"
  proof (rule ccontr)
    assume "length m \<noteq> 2"
    with assms(4) obtain x where "m = [x]" by (cases m) auto
    with assms(2) s d have "m2 = 0x2E" by simp
    with a(4) show False by (simp add: ascii_digit_def)
  qed
  then obtain z1 z2 where m: "m = [z1, z2]"
    by (cases m; cases "tl m") auto
  from assms(2) s d m show ?thesis by auto
qed

lemma strptime_dmY_strict_Inr:
  assumes "spec_strict_format s" "strptime_dmY s = Inr dt"
  shows "valid_date (spec_denoted_date s)"
proof -
  from strptime_dmY_Inr [OF assms(2)] obtain d m y where
    dec: "s = d @ 0x2E # m @ 0x2E # y" "length d = 1 \<or> length d = 2"
      "length m = 1 \<or> length m = 2"
    and r: "real_date (py_int y) (py_int m) (py_int d)"
    by blast
  note e = strict_format_decompose [OF assms(1) dec]
  from assms(1) obtain d1 d2 m1 m2 y1 y2 y3 y4 where
    s: "s = [d1, d2, 0x2E, m1, m2, 0x2E, y1, y2, y3, y4]"
    and a: "ascii_digit d1" "ascii_digit d2" "ascii_digit m1" "ascii_digit m2"
      "ascii_digit y1" "ascii_digit y2" "ascii_digit y3" "ascii_digit y4"
    by (auto simp: spec_strict_format_def split: list.splits)
  from e r show ?thesis
    by (simp add: s valid_date_def spec_denoted_date_def py_int_2 py_int_4 a)
qed

text \<open>
  C5, as the spec states it, fails: \<^verbatim>\<open>1.1.2024\<close>, with a one-digit day and month, is not of
  the strict format, and \<^verbatim>\<open>Birthday\<close> accepts it.
\<close>

theorem Birthday_init_lenient_counterexample:
  "Birthday_init (lit ''1.1.2024'') = Inr (Field (lit ''1.1.2024''))
   \<and> \<not> spec_strict_format (lit ''1.1.2024'')"
  by (simp add: Birthday_init_def spec_strict_format_def eval_strptime)

text \<open>
  C5, amended. \<^verbatim>\<open>Birthday(s)\<close> fails with the ValueError \<^verbatim>\<open>Invalid date format. Use DD.MM.YYYY\<close>
  unless \<open>s\<close> is a day, a dot, a month, a dot and a year, with a day and a month of one
  or two characters and a year of exactly four decimal digits, that are the numbers of a
  real calendar date; an accepted value is stored as it was given and renders back to the
  same string. A string of the strict format \<^verbatim>\<open>DD.MM.YYYY\<close> is accepted if and only if it
  denotes a real calendar date of the years 1 to 9999.
\<close>

theorem Birthday_init_accepts:
  "(\<forall>f. Birthday_init s = Inr f \<longrightarrow>
      f = Field s \<and> Field_str f = s
      \<and> (\<exists>d m y. s = d @ 0x2E # m @ 0x2E # y
            \<and> (length d = 1 \<or> length d = 2) \<and> (length m = 1 \<or> length m = 2)
            \<and> length y = 4 \<and> list_all isdecimal_char y
            \<and> real_date (py_int y) (py_int m) (py_int d)))
   \<and> ((\<forall>f. Birthday_init s \<noteq> Inr f) \<longrightarrow>
        Birthday_init s = Inl (ValueError (lit ''Invalid date format. Use DD.MM.YYYY'')))
   \<and> (spec_strict_format s \<and> valid_date (spec_denoted_date s) \<longrightarrow>
        Birthday_init s = Inr (Field s))
   \<and> (spec_strict_format s \<and> \<not> valid_date (spec_denoted_date s) \<longrightarrow>
        Birthday_init s = Inl (ValueError (lit ''Invalid date format. Use DD.MM.YYYY'')))"
proof (intro conjI allI impI)
  fix f
  assume h: "Birthday_init s = Inr f"
  then obtain dt where dt: "strptime_dmY s = Inr dt" and f: "f = Field s"
    by (auto simp: Birthday_init_def split: sum.splits)
  show "f = Field s" by (rule f)
  show "Field_str f = s" by (simp add: f Field_str_def)
  show "\<exists>d m y. s = d @ 0x2E # m @ 0x2E # y
      \<and> (length d = 1 \<or> length d = 2) \<and> (length m = 1 \<or> length m = 2)
      \<and> length y = 4 \<and> list_all isdecimal_char y
      \<and> real_date (py_int y) (py_int m) (py_int d)"
    using strptime_dmY_Inr [OF dt] by blast
next
  assume "\<forall>f. Birthday_init s \<noteq> Inr f"
  then show "Birthday_init s = Inl (ValueError (lit ''Invalid date format. Use DD.MM.YYYY''))"
    by (auto simp: Birthday_init_def split: sum.splits)
next
  assume "spec_strict_format s \<and> valid_date (spec_denoted_date s)"
  then show "Birthday_init s = Inr (Field s)"
    by (simp add: Birthday_init_def strptime_dmY_strict)
next
  assume a: "spec_strict_format s \<and> \<not> valid_date (spec_denoted_date s)"
  then have "\<forall>dt. strptime_dmY s \<noteq> Inr dt"
    using strptime_dmY_strict_Inr by blast
  then show "Birthday_init s = Inl (ValueError (lit ''Invalid date format. Use DD.MM.YYYY''))"
    by (auto simp: Birthday_init_def split: sum.splits)
qed

theorem Birthday_init_accepts_witness:
  "Birthday_init (lit ''29.02.2024'') = Inr (Field (lit ''29.02.2024''))
   \<and> Birthday_init (lit ''31.02.2024'')
       = Inl (ValueError (lit ''Invalid date format. Use DD.MM.YYYY''))
   \<and> Birthday_init (lit ''30.02.2023'')
       = Inl (ValueError (lit ''Invalid date format. Use DD.MM.YYYY''))"
proof -
  have f: "spec_strict_format (lit ''29.02.2024'')" "spec_strict_format (lit ''31.02.2024'')"
    "spec_strict_format (lit ''30.02.2023'')"
    by (simp_all add: spec_strict_format_def ascii_digit_def lit_def)
  have d: "spec_denoted_date (lit ''29.02.2024'') = \<lparr>year = 2024, month = 2, day = 29\<rparr>"
    "spec_denoted_date (lit ''31.02.2024'') = \<lparr>year = 2024, month = 2, day = 31\<rparr>"
    "spec_denoted_date (lit ''30.02.2023'') = \<lparr>year = 2023, month = 2, day = 30\<rparr>"
    by (simp_all add: spec_denoted_date_def ascii_value_def lit_def)
  have v: "valid_date (spec_denoted_date (lit ''29.02.2024''))"
    "\<not> valid_date (spec_denoted_date (lit ''31.02.2024''))"
    "\<not> valid_date (spec_denoted_date (lit ''30.02.2023''))"
    by (simp_all add: d valid_date_def real_date_def days_in_month_def DAYS_IN_MONTH_def
        is_leap_def)
  from f v Birthday_init_accepts [of "lit ''29.02.2024''"]
    Birthday_init_accepts [of "lit ''31.02.2024''"]
    Birthday_init_accepts [of "lit ''30.02.2023''"]
  show ?thesis by blast
qed

section \<open>The query\<close>

lemmas eval_query =
  get_upcoming_birthdays_def upcoming_entry_def Name_def date_replace_year_def date_lt_def
  toordinal_def ymd2ord_def days_before_year_def days_before_month_def DAYS_BEFORE_MONTH_def
  weekday_def date_add_days_def MAXORDINAL_def ord2ymd_def month_day_def Let_def
  strftime_dmY_def pad2_def str_int_def str_nat.simps

lemma date_replace_year_Inr:
  "date_replace_year d y = Inr dt \<longleftrightarrow>
     real_date y (month d) (day d) \<and> dt = \<lparr>year = y, month = month d, day = day d\<rparr>"
  by (simp add: date_replace_year_def date_new_Inr)

lemma candidate_built_valid:
  "candidate_built today bd \<Longrightarrow> valid_date (spec_candidate today bd)"
  by (auto simp: candidate_built_def spec_candidate_def valid_date_def Let_def)

lemma weekday_weekend: "5 \<le> weekday d \<longleftrightarrow> weekday d = 5 \<or> weekday d = 6"
  using weekday_range [of d] by auto

lemma upcoming_entry_eq:
  "upcoming_entry today r =
     (case birthday r of
        None \<Rightarrow> Inr None
      | Some b \<Rightarrow>
         (case strptime_dmY (field_value b) of
            Inl e \<Rightarrow> Inl e
          | Inr bd \<Rightarrow>
              (case date_replace_year bd (year today) of
                 Inl e \<Rightarrow> Inl (Raised e)
               | Inr c \<Rightarrow>
                   if date_lt c today
                   then (case date_replace_year c (year today + 1) of
                           Inl e \<Rightarrow> Inl (Raised e)
                         | Inr _ \<Rightarrow> Inr (spec_entry today r))
                   else Inr (spec_entry today r))))"
proof (cases "birthday r")
  case None
  then show ?thesis by (simp add: upcoming_entry_def)
next
  case (Some b)
  show ?thesis
  proof (cases "strptime_dmY (field_value b)")
    case (Inl e)
    with Some show ?thesis by (simp add: upcoming_entry_def)
  next
    case (Inr bd)
    then have bdr: "birthday_date r = Some bd"
      using Some by (simp add: birthday_date_def)
    show ?thesis
    proof (cases "date_replace_year bd (year today)")
      case (Inl e)
      with Some Inr show ?thesis by (simp add: upcoming_entry_def)
    next
      case c: (Inr c)
      then have cv: "real_date (year today) (month bd) (day bd)"
        and ceq: "c = \<lparr>year = year today, month = month bd, day = day bd\<rparr>"
        by (simp_all add: date_replace_year_Inr)
      show ?thesis
      proof (cases "date_lt c today")
        case lt: True
        show ?thesis
        proof (cases "date_replace_year c (year today + 1)")
          case (Inl e)
          with Some Inr c lt show ?thesis by (simp add: upcoming_entry_def)
        next
          case c': (Inr c')
          then have c'v: "real_date (year today + 1) (month bd) (day bd)"
            and c'eq: "c' = \<lparr>year = year today + 1, month = month bd, day = day bd\<rparr>"
            by (simp_all add: date_replace_year_Inr ceq)
          have cand: "spec_candidate today bd = c'"
            using lt by (simp add: spec_candidate_def Let_def ceq c'eq)
          have v: "valid_date c'"
            using c'v by (simp add: valid_date_def c'eq)
          have "upcoming_entry today r = Inr (spec_entry today r)"
            using Some Inr c lt c' date_add_days_weekend [OF v]
            by (auto simp: upcoming_entry_def Let_def spec_entry_def bdr spec_days_until_def
                cand spec_effective_def weekday_weekend)
          with Some Inr c lt c' show ?thesis by simp
        qed
      next
        case nlt: False
        have cand: "spec_candidate today bd = c"
          using nlt by (simp add: spec_candidate_def Let_def ceq)
        have v: "valid_date c"
          using cv by (simp add: valid_date_def ceq)
        have "upcoming_entry today r = Inr (spec_entry today r)"
          using Some Inr c nlt date_add_days_weekend [OF v]
          by (auto simp: upcoming_entry_def Let_def spec_entry_def bdr spec_days_until_def
              cand spec_effective_def weekday_weekend)
        with Some Inr c nlt show ?thesis by simp
      qed
    qed
  qed
qed

lemma upcoming_entry_Inr:
  "upcoming_entry today r = Inr res \<Longrightarrow> res = spec_entry today r"
  by (auto simp: upcoming_entry_eq spec_entry_def birthday_date_def
      split: option.splits sum.splits if_splits)

lemma upcoming_loop_Inr:
  "upcoming_loop today rs acc = Inr out \<Longrightarrow>
   out = acc @ List.map_filter (spec_entry today) rs"
proof (induction rs arbitrary: acc)
  case Nil
  then show ?case by (simp add: List.map_filter_simps)
next
  case (Cons r rs)
  show ?case
  proof (cases "upcoming_entry today r")
    case (Inl e)
    with Cons.prems show ?thesis by simp
  next
    case (Inr res)
    then have res: "upcoming_entry today r = Inr (spec_entry today r)"
      using upcoming_entry_Inr by blast
    show ?thesis
    proof (cases "spec_entry today r")
      case None
      with Cons.prems res Cons.IH [of acc] show ?thesis
        by (simp add: List.map_filter_simps)
    next
      case (Some e)
      with Cons.prems res Cons.IH [of "acc @ [e]"] show ?thesis
        by (simp add: List.map_filter_simps)
    qed
  qed
qed

lemma get_upcoming_birthdays_Inr:
  "get_upcoming_birthdays today book = Inr out \<Longrightarrow>
   out = List.map_filter (spec_entry today) (map snd book)"
  using upcoming_loop_Inr [of today "map snd book" "[]" out]
  by (simp add: get_upcoming_birthdays_def)

lemma spec_entry_included:
  "spec_entry today r \<noteq> None \<longleftrightarrow> spec_included today r"
  by (simp add: spec_entry_def spec_included_def split: option.splits)

lemma spec_entry_name:
  "spec_entry today r = Some e \<Longrightarrow> entry_name e = field_value (name r)"
  by (auto simp: spec_entry_def split: option.splits if_splits)

lemma map_filter_names:
  "map entry_name (List.map_filter (spec_entry today) rs)
   = map (\<lambda>r. field_value (name r)) (filter (spec_included today) rs)"
proof (induction rs)
  case Nil
  then show ?case by (simp add: List.map_filter_simps)
next
  case (Cons r rs)
  then show ?case
    using spec_entry_included [of today r] spec_entry_name [of today r]
    by (cases "spec_entry today r") (auto simp: List.map_filter_simps)
qed

lemma strptime_dmY_valid: "strptime_dmY s = Inr d \<Longrightarrow> valid_date d"
  by (auto simp: strptime_dmY_def date_new_Inr valid_date_def
      split: list.splits prod.splits if_splits sum.splits)

lemma birthday_date_valid: "birthday_date r = Some bd \<Longrightarrow> valid_date bd"
  by (auto simp: birthday_date_def strptime_dmY_valid split: option.splits sum.splits)

lemma upcoming_entry_Inr_built:
  assumes "upcoming_entry today r = Inr res" "birthday_date r = Some bd"
  shows "candidate_built today bd"
  using assms
  by (auto simp: upcoming_entry_eq birthday_date_def candidate_built_def date_replace_year_Inr
      split: option.splits sum.splits if_splits)

lemma upcoming_loop_Inr_all:
  "upcoming_loop today rs acc = Inr out \<Longrightarrow> r \<in> set rs \<Longrightarrow>
   \<exists>res. upcoming_entry today r = Inr res"
  by (induction rs arbitrary: acc) (auto split: sum.splits option.splits)

lemma upcoming_loop_Inl:
  "r \<in> set rs \<Longrightarrow> upcoming_entry today r = Inl e \<Longrightarrow>
   \<exists>e'. upcoming_loop today rs acc = Inl e'"
  by (induction rs arbitrary: acc) (auto split: sum.splits option.splits)

lemma upcoming_loop_total:
  "\<forall>r \<in> set rs. \<exists>res. upcoming_entry today r = Inr res \<Longrightarrow>
   \<exists>out. upcoming_loop today rs acc = Inr out"
  by (induction rs arbitrary: acc) (auto split: sum.splits option.splits)

lemma spec_effective_monday:
  assumes "valid_date c"
  shows "spec_next_monday c (spec_effective c)"
proof (cases "weekday c = 5 \<or> weekday c = 6")
  case True
  then have w: "5 \<le> weekday c" by auto
  from True next_monday [OF assms w] show ?thesis
    by (auto simp: spec_next_monday_def spec_effective_def)
next
  case False
  then show ?thesis by (simp add: spec_next_monday_def spec_effective_def)
qed

lemma map_filter_reported:
  "list_all2 (spec_reported today) (List.map_filter (spec_entry today) rs)
     (filter (spec_included today) rs)"
proof (induction rs)
  case Nil
  then show ?case by (simp add: List.map_filter_simps)
next
  case (Cons r rs)
  show ?case
  proof (cases "spec_entry today r")
    case None
    with Cons spec_entry_included [of today r] show ?thesis
      by (simp add: List.map_filter_simps)
  next
    case (Some e)
    then have "spec_reported today e r"
      by (auto simp: spec_entry_def spec_reported_def split: option.splits if_splits)
    with Some Cons spec_entry_included [of today r] show ?thesis
      by (simp add: List.map_filter_simps)
  qed
qed

lemma real_date_other_year:
  assumes "real_date y m d" "\<not> (m = 2 \<and> d = 29)" "1 \<le> y'" "y' \<le> 9999"
  shows "real_date y' m d"
  using assms month_cases [of m]
  by (auto simp: real_date_def days_in_month_def DAYS_IN_MONTH_def split: if_splits)

text \<open>
  The query returns a list whenever no birthday is a 29 February and next year is still
  a year of \<^verbatim>\<open>date\<close>.
\<close>

lemma get_upcoming_birthdays_returns:
  assumes "valid_date today" and "year today < 9999"
    and "no_leap_day_birthdays book"
  shows "\<exists>out. get_upcoming_birthdays today book = Inr out"
proof -
  have y: "1 \<le> year today" "year today \<le> 9999" "1 \<le> year today + 1" "year today + 1 \<le> 9999"
    using assms(1,2) by (simp_all add: valid_date_def real_date_def)
  have "\<exists>res. upcoming_entry today r = Inr res" if r: "r \<in> set (map snd book)" for r
  proof (cases "birthday r")
    case None
    then show ?thesis by (simp add: upcoming_entry_def)
  next
    case (Some b)
    from assms(3) r
    have "case birthday r of
            None \<Rightarrow> True
          | Some b \<Rightarrow>
              (case strptime_dmY (field_value b) of
                 Inl _ \<Rightarrow> False
               | Inr bd \<Rightarrow> \<not> (month bd = 2 \<and> day bd = 29))"
      unfolding no_leap_day_birthdays_def list_all_iff by blast
    with Some obtain bd where bd: "strptime_dmY (field_value b) = Inr bd"
      and n: "\<not> (month bd = 2 \<and> day bd = 29)"
      by (cases "strptime_dmY (field_value b)") auto
    from bd have "real_date (year bd) (month bd) (day bd)"
      using strptime_dmY_valid by (simp add: valid_date_def)
    note o = real_date_other_year [OF this n]
    have 1: "date_replace_year bd (year today)
        = Inr \<lparr>year = year today, month = month bd, day = day bd\<rparr>"
      using o [OF y(1,2)] by (simp add: date_replace_year_Inr)
    have 2: "date_replace_year \<lparr>year = year today, month = month bd, day = day bd\<rparr>
        (year today + 1) = Inr \<lparr>year = year today + 1, month = month bd, day = day bd\<rparr>"
      using o [OF y(3,4)] by (simp add: date_replace_year_Inr)
    show ?thesis
      using Some bd by (simp add: upcoming_entry_eq 1 2)
  qed
  then show ?thesis
    unfolding get_upcoming_birthdays_def by (intro upcoming_loop_total) blast
qed

lemma get_upcoming_birthdays_window:
  assumes "get_upcoming_birthdays today book = Inr out"
  shows "map entry_name out
           = map (\<lambda>r. field_value (name r)) (filter (spec_included today) (map snd book))"
    and "distinct (map (\<lambda>r. field_value (name r)) (map snd book)) \<Longrightarrow>
         r \<in> set (map snd book) \<Longrightarrow>
         field_value (name r) \<in> entry_name ` set out \<longleftrightarrow> spec_included today r"
proof -
  have out: "out = List.map_filter (spec_entry today) (map snd book)"
    using assms by (rule get_upcoming_birthdays_Inr)
  show names: "map entry_name out
      = map (\<lambda>r. field_value (name r)) (filter (spec_included today) (map snd book))"
    by (simp add: out map_filter_names)
  show "field_value (name r) \<in> entry_name ` set out \<longleftrightarrow> spec_included today r"
    if d: "distinct (map (\<lambda>r. field_value (name r)) (map snd book))"
      and r: "r \<in> set (map snd book)"
  proof -
    have inj: "inj_on (\<lambda>r. field_value (name r)) (set (map snd book))"
      using d distinct_map [of "\<lambda>r. field_value (name r)" "map snd book"] by blast
    have "entry_name ` set out
        = (\<lambda>r. field_value (name r)) ` set (filter (spec_included today) (map snd book))"
      using names by (metis list.set_map)
    then show ?thesis
      using inj r by (auto dest: inj_onD)
  qed
qed

text \<open>
  C1. Whenever the query returns, its result lists, in the order of the book, exactly the
  records with a birthday whose candidate (the day and month of the birthday in the year
  of \<open>today\<close>, or in the next year when that date is before \<open>today\<close>) is 0 to 7 days
  after \<open>today\<close>; with distinct names, a record is in the result if and only if it is one
  of these. The query does return when no birthday of the book is a 29 February and the
  next year is a year that \<^verbatim>\<open>date\<close> has. For \<open>today\<close> = 31.12.2024 and the birthday
  02.01.2000 the candidate is 02.01.2025, two days ahead.
\<close>

theorem upcoming_birthdays_window:
  "(\<forall>out. get_upcoming_birthdays today book = Inr out \<longrightarrow>
      map entry_name out
        = map (\<lambda>r. field_value (name r)) (filter (spec_included today) (map snd book))
      \<and> (distinct (map (\<lambda>r. field_value (name r)) (map snd book)) \<longrightarrow>
           (\<forall>r \<in> set (map snd book).
              field_value (name r) \<in> entry_name ` set out \<longleftrightarrow> spec_included today r)))
   \<and> (valid_date today \<and> year today < 9999 \<and> no_leap_day_birthdays book \<longrightarrow>
        (\<exists>out. get_upcoming_birthdays today book = Inr out))
   \<and> spec_candidate \<lparr>year = 2024, month = 12, day = 31\<rparr> \<lparr>year = 2000, month = 1, day = 2\<rparr>
       = \<lparr>year = 2025, month = 1, day = 2\<rparr>
   \<and> spec_days_until \<lparr>year = 2024, month = 12, day = 31\<rparr>
       \<lparr>year = 2000, month = 1, day = 2\<rparr> = 2"
proof (intro conjI allI impI)
  fix out
  assume h: "get_upcoming_birthdays today book = Inr out"
  show "map entry_name out
      = map (\<lambda>r. field_value (name r)) (filter (spec_included today) (map snd book))"
    using h by (rule get_upcoming_birthdays_window(1))
  assume "distinct (map (\<lambda>r. field_value (name r)) (map snd book))"
  then show "\<forall>r \<in> set (map snd book).
      field_value (name r) \<in> entry_name ` set out \<longleftrightarrow> spec_included today r"
    using get_upcoming_birthdays_window(2) [OF h] by blast
next
  assume "valid_date today \<and> year today < 9999 \<and> no_leap_day_birthdays book"
  then show "\<exists>out. get_upcoming_birthdays today book = Inr out"
    using get_upcoming_birthdays_returns by blast
next
  show c: "spec_candidate \<lparr>year = 2024, month = 12, day = 31\<rparr>
      \<lparr>year = 2000, month = 1, day = 2\<rparr> = \<lparr>year = 2025, month = 1, day = 2\<rparr>"
    by (simp add: spec_candidate_def date_lt_def)
  show "spec_days_until \<lparr>year = 2024, month = 12, day = 31\<rparr>
      \<lparr>year = 2000, month = 1, day = 2\<rparr> = 2"
    by (simp add: spec_days_until_def c toordinal_def ymd2ord_def days_before_year_def
        days_before_month_def DAYS_BEFORE_MONTH_def is_leap_def)
qed

theorem upcoming_birthdays_window_witness:
  "get_upcoming_birthdays \<lparr>year = 2024, month = 12, day = 31\<rparr>
     [(lit ''Ann'', \<lparr>name = Name (lit ''Ann''), phones = [], email = [],
         birthday = Some (Field (lit ''02.01.2000''))\<rparr>),
      (lit ''Bob'', \<lparr>name = Name (lit ''Bob''), phones = [], email = [],
         birthday = Some (Field (lit ''15.06.1990''))\<rparr>),
      (lit ''Cy'', \<lparr>name = Name (lit ''Cy''), phones = [], email = [], birthday = None\<rparr>)]
   = Inr [\<lparr>entry_name = lit ''Ann'', entry_birthday = lit ''02.01.2025''\<rparr>]
   \<and> map entry_name [\<lparr>entry_name = lit ''Ann'', entry_birthday = lit ''02.01.2025''\<rparr>]
     = map (\<lambda>r. field_value (name r))
         (filter (spec_included \<lparr>year = 2024, month = 12, day = 31\<rparr>)
           (map snd
             [(lit ''Ann'', \<lparr>name = Name (lit ''Ann''), phones = [], email = [],
                 birthday = Some (Field (lit ''02.01.2000''))\<rparr>),
              (lit ''Bob'', \<lparr>name = Name (lit ''Bob''), phones = [], email = [],
                 birthday = Some (Field (lit ''15.06.1990''))\<rparr>),
              (lit ''Cy'', \<lparr>name = Name (lit ''Cy''), phones = [], email = [],
                 birthday = None\<rparr>)]))"
proof -
  have h: "get_upcoming_birthdays \<lparr>year = 2024, month = 12, day = 31\<rparr>
     [(lit ''Ann'', \<lparr>name = Name (lit ''Ann''), phones = [], email = [],
         birthday = Some (Field (lit ''02.01.2000''))\<rparr>),
      (lit ''Bob'', \<lparr>name = Name (lit ''Bob''), phones = [], email = [],
         birthday = Some (Field (lit ''15.06.1990''))\<rparr>),
      (lit ''Cy'', \<lparr>name = Name (lit ''Cy''), phones = [], email = [], birthday = None\<rparr>)]
   = Inr [\<lparr>entry_name = lit ''Ann'', entry_birthday = lit ''02.01.2025''\<rparr>]"
    by (simp add: eval_strptime eval_query)
  from upcoming_birthdays_window [of "\<lparr>year = 2024, month = 12, day = 31\<rparr>"
      "[(lit ''Ann'', \<lparr>name = Name (lit ''Ann''), phones = [], email = [],
           birthday = Some (Field (lit ''02.01.2000''))\<rparr>),
        (lit ''Bob'', \<lparr>name = Name (lit ''Bob''), phones = [], email = [],
           birthday = Some (Field (lit ''15.06.1990''))\<rparr>),
        (lit ''Cy'', \<lparr>name = Name (lit ''Cy''), phones = [], email = [],
           birthday = None\<rparr>)]"] h
  show ?thesis by blast
qed

text \<open>
  C2. When the query returns, the entries correspond one to one to the records that the
  window on the unshifted candidate lets in, and each entry reports the candidate itself,
  or, for a candidate on a Saturday or a Sunday, the Monday 2 days or 1 day after it.
\<close>

theorem weekend_shift_reported:
  assumes "get_upcoming_birthdays today book = Inr out"
  shows "list_all2 (spec_reported today) out (filter (spec_included today) (map snd book))
       \<and> (\<forall>r \<in> set (filter (spec_included today) (map snd book)).
            \<forall>bd. birthday_date r = Some bd \<longrightarrow>
              spec_next_monday (spec_candidate today bd)
                (spec_effective (spec_candidate today bd)))"
proof (intro conjI ballI allI impI)
  have out: "out = List.map_filter (spec_entry today) (map snd book)"
    using assms by (rule get_upcoming_birthdays_Inr)
  show "list_all2 (spec_reported today) out (filter (spec_included today) (map snd book))"
    by (simp add: out map_filter_reported)
  fix r bd
  assume r: "r \<in> set (filter (spec_included today) (map snd book))"
    and bd: "birthday_date r = Some bd"
  from r have "r \<in> set (map snd book)" by simp
  with assms obtain res where "upcoming_entry today r = Inr res"
    unfolding get_upcoming_birthdays_def using upcoming_loop_Inr_all by blast
  then have "candidate_built today bd"
    using bd by (rule upcoming_entry_Inr_built)
  then have "valid_date (spec_candidate today bd)"
    by (rule candidate_built_valid)
  then show "spec_next_monday (spec_candidate today bd)
      (spec_effective (spec_candidate today bd))"
    by (rule spec_effective_monday)
qed

theorem weekend_shift_reported_witness:
  "get_upcoming_birthdays \<lparr>year = 2024, month = 6, day = 8\<rparr>
     [(lit ''Ann'', \<lparr>name = Name (lit ''Ann''), phones = [], email = [],
         birthday = Some (Field (lit ''12.06.2000''))\<rparr>),
      (lit ''Bob'', \<lparr>name = Name (lit ''Bob''), phones = [], email = [],
         birthday = Some (Field (lit ''15.06.1990''))\<rparr>),
      (lit ''Cy'', \<lparr>name = Name (lit ''Cy''), phones = [], email = [],
         birthday = Some (Field (lit ''9.6.1985''))\<rparr>)]
   = Inr [\<lparr>entry_name = lit ''Ann'', entry_birthday = lit ''12.06.2024''\<rparr>,
          \<lparr>entry_name = lit ''Bob'', entry_birthday = lit ''17.06.2024''\<rparr>,
          \<lparr>entry_name = lit ''Cy'', entry_birthday = lit ''10.06.2024''\<rparr>]
   \<and> list_all2 (spec_reported \<lparr>year = 2024, month = 6, day = 8\<rparr>)
       [\<lparr>entry_name = lit ''Ann'', entry_birthday = lit ''12.06.2024''\<rparr>,
        \<lparr>entry_name = lit ''Bob'', entry_birthday = lit ''17.06.2024''\<rparr>,
        \<lparr>entry_name = lit ''Cy'', entry_birthday = lit ''10.06.2024''\<rparr>]
       (filter (spec_included \<lparr>year = 2024, month = 6, day = 8\<rparr>)
         (map snd
           [(lit ''Ann'', \<lparr>name = Name (lit ''Ann''), phones = [], email = [],
               birthday = Some (Field (lit ''12.06.2000''))\<rparr>),
            (lit ''Bob'', \<lparr>name = Name (lit ''Bob''), phones = [], email = [],
               birthday = Some (Field (lit ''15.06.1990''))\<rparr>),
            (lit ''Cy'', \<lparr>name = Name (lit ''Cy''), phones = [], email = [],
               birthday = Some (Field (lit ''9.6.1985''))\<rparr>)]))"
proof -
  have h: "get_upcoming_birthdays \<lparr>year = 2024, month = 6, day = 8\<rparr>
     [(lit ''Ann'', \<lparr>name = Name (lit ''Ann''), phones = [], email = [],
         birthday = Some (Field (lit ''12.06.2000''))\<rparr>),
      (lit ''Bob'', \<lparr>name = Name (lit ''Bob''), phones = [], email = [],
         birthday = Some (Field (lit ''15.06.1990''))\<rparr>),
      (lit ''Cy'', \<lparr>name = Name (lit ''Cy''), phones = [], email = [],
         birthday = Some (Field (lit ''9.6.1985''))\<rparr>)]
   = Inr [\<lparr>entry_name = lit ''Ann'', entry_birthday = lit ''12.06.2024''\<rparr>,
          \<lparr>entry_name = lit ''Bob'', entry_birthday = lit ''17.06.2024''\<rparr>,
          \<lparr>entry_name = lit ''Cy'', entry_birthday = lit ''10.06.2024''\<rparr>]"
    by (simp add: eval_strptime eval_query)
  from weekend_shift_reported [OF h] h show ?thesis by blast
qed

text \<open>
  C9. A record whose birthday is a 29 February makes the query fail in a year that is not
  a leap year: \<^verbatim>\<open>replace(year=today.year)\<close> raises ValueError for that record, and the query
  returns no list.
\<close>

theorem leap_day_birthday_raises:
  assumes "r \<in> set (map snd book)" and "birthday_date r = Some bd"
    and "month bd = 2" and "day bd = 29" and "\<not> is_leap (year today)"
  shows "(\<exists>msg. date_replace_year bd (year today) = Inl (ValueError msg)
            \<and> upcoming_entry today r = Inl (Raised (ValueError msg)))
       \<and> (\<exists>e. get_upcoming_birthdays today book = Inl e)"
proof -
  have "\<exists>msg. date_replace_year bd (year today) = Inl (ValueError msg)"
    using assms(3,4,5)
    by (simp add: date_replace_year_def date_new_def days_in_month_def DAYS_IN_MONTH_def)
  then obtain msg where m: "date_replace_year bd (year today) = Inl (ValueError msg)" ..
  have e: "upcoming_entry today r = Inl (Raised (ValueError msg))"
    using assms(2) m
    by (auto simp: upcoming_entry_eq birthday_date_def split: option.splits sum.splits)
  from upcoming_loop_Inl [OF assms(1) e]
  have "\<exists>e. get_upcoming_birthdays today book = Inl e"
    by (simp add: get_upcoming_birthdays_def)
  with m e show ?thesis by blast
qed

theorem leap_day_birthday_raises_witness:
  "get_upcoming_birthdays \<lparr>year = 2023, month = 3, day = 1\<rparr>
     [(lit ''Bob'', \<lparr>name = Name (lit ''Bob''), phones = [], email = [],
         birthday = Some (Field (lit ''02.03.1990''))\<rparr>),
      (lit ''Ann'', \<lparr>name = Name (lit ''Ann''), phones = [], email = [],
         birthday = Some (Field (lit ''29.02.2000''))\<rparr>)]
   = Inl (Raised (ValueError (lit ''day is out of range for month'')))"
proof -
  have b: "birthday_date \<lparr>name = Name (lit ''Ann''), phones = [], email = [],
         birthday = Some (Field (lit ''29.02.2000''))\<rparr>
       = Some \<lparr>year = 2000, month = 2, day = 29\<rparr>"
    by (simp add: birthday_date_def eval_strptime)
  have l: "\<not> is_leap (year \<lparr>year = 2023, month = 3, day = 1\<rparr>)"
    by (simp add: is_leap_def)
  from leap_day_birthday_raises [OF _ b _ _ l,
      of "[(lit ''Bob'', \<lparr>name = Name (lit ''Bob''), phones = [], email = [],
             birthday = Some (Field (lit ''02.03.1990''))\<rparr>),
           (lit ''Ann'', \<lparr>name = Name (lit ''Ann''), phones = [], email = [],
             birthday = Some (Field (lit ''29.02.2000''))\<rparr>)]"]
  have "\<exists>e. get_upcoming_birthdays \<lparr>year = 2023, month = 3, day = 1\<rparr>
     [(lit ''Bob'', \<lparr>name = Name (lit ''Bob''), phones = [], email = [],
         birthday = Some (Field (lit ''02.03.1990''))\<rparr>),
      (lit ''Ann'', \<lparr>name = Name (lit ''Ann''), phones = [], email = [],
         birthday = Some (Field (lit ''29.02.2000''))\<rparr>)] = Inl e"
    by simp
  moreover have "get_upcoming_birthdays \<lparr>year = 2023, month = 3, day = 1\<rparr>
     [(lit ''Bob'', \<lparr>name = Name (lit ''Bob''), phones = [], email = [],
         birthday = Some (Field (lit ''02.03.1990''))\<rparr>),
      (lit ''Ann'', \<lparr>name = Name (lit ''Ann''), phones = [], email = [],
         birthday = Some (Field (lit ''29.02.2000''))\<rparr>)]
   = Inl (Raised (ValueError (lit ''day is out of range for month'')))"
    by (simp add: eval_strptime eval_query)
  ultimately show ?thesis by simp
qed

end
